theory Spec2Isabelle
  imports Complex_Main "HOL-Library.Word"
begin

section \<open>Floating-point values\<close>

text \<open>
  The rasters of \<^verbatim>\<open>processing.py\<close> are NumPy arrays of IEEE-754 numbers. A pixel is
  modelled by its special-value structure: not-a-number, the two infinities, or a finite
  number. The operations below follow IEEE-754 on the special values, which is what
  the guards of the source (\<^verbatim>\<open>np.isfinite\<close>, \<^verbatim>\<open>np.isnan\<close>, \<^verbatim>\<open>np.nan_to_num\<close>)
  act on, and they overflow: a finite result whose magnitude reaches the overflow
  threshold of the format becomes an infinity. Below the threshold a finite result is
  the exact real number (its rounding to the nearest representable number is not
  modelled), and the two signed zeros are one value \<open>Fin 0\<close>.
\<close>

datatype fl = NaN | PInf | NInf | Fin real

text \<open>
  The floating-point format of the arrays (their \<^verbatim>\<open>dtype\<close>). Under rounding to
  nearest a real number becomes an infinity exactly when its magnitude is at least the
  largest finite number of the format plus half a unit in its last place:
  \<open>65520\<close> for binary16, \<open>2^128 - 2^103\<close> for binary32 and \<open>2^1024 - 2^970\<close> for
  binary64.
\<close>

datatype dtype = float16 | float32 | float64

fun overflow_threshold :: "dtype \<Rightarrow> real" where
  "overflow_threshold float16 = 65520"
| "overflow_threshold float32 = 2 ^ 128 - 2 ^ 103"
| "overflow_threshold float64 = 2 ^ 1024 - 2 ^ 970"

text \<open>
  Every arithmetic operation, and every function of the source that does arithmetic,
  takes the format in which it computes as its first argument: the format of the
  rasters it is given (a Python number that enters the computation, such as a bound of
  the normalization, is a number of that format).
\<close>

definition fl_round :: "dtype \<Rightarrow> real \<Rightarrow> fl" where
  "fl_round dt r =
     (if overflow_threshold dt \<le> r then PInf
      else if r \<le> - overflow_threshold dt then NInf
      else Fin r)"

fun fl_neg :: "fl \<Rightarrow> fl" where
  "fl_neg NaN = NaN"
| "fl_neg PInf = NInf"
| "fl_neg NInf = PInf"
| "fl_neg (Fin x) = Fin (- x)"

fun fl_add :: "dtype \<Rightarrow> fl \<Rightarrow> fl \<Rightarrow> fl" where
  "fl_add dt NaN _ = NaN"
| "fl_add dt _ NaN = NaN"
| "fl_add dt PInf NInf = NaN"
| "fl_add dt NInf PInf = NaN"
| "fl_add dt PInf _ = PInf"
| "fl_add dt _ PInf = PInf"
| "fl_add dt NInf _ = NInf"
| "fl_add dt _ NInf = NInf"
| "fl_add dt (Fin x) (Fin y) = fl_round dt (x + y)"

fun fl_sub :: "dtype \<Rightarrow> fl \<Rightarrow> fl \<Rightarrow> fl" where
  "fl_sub dt NaN _ = NaN"
| "fl_sub dt _ NaN = NaN"
| "fl_sub dt PInf PInf = NaN"
| "fl_sub dt NInf NInf = NaN"
| "fl_sub dt PInf _ = PInf"
| "fl_sub dt _ NInf = PInf"
| "fl_sub dt NInf _ = NInf"
| "fl_sub dt _ PInf = NInf"
| "fl_sub dt (Fin x) (Fin y) = fl_round dt (x - y)"

text \<open>
  Division. A non-zero finite number divided by zero is an infinity whose sign also
  depends on the sign of the zero; with one zero in the model the sign of the numerator
  is taken. \<^verbatim>\<open>_safe_divide\<close> replaces either infinity by NaN, so the choice is not
  observable there.
\<close>

fun fl_div :: "dtype \<Rightarrow> fl \<Rightarrow> fl \<Rightarrow> fl" where
  "fl_div dt NaN _ = NaN"
| "fl_div dt _ NaN = NaN"
| "fl_div dt PInf PInf = NaN"
| "fl_div dt PInf NInf = NaN"
| "fl_div dt NInf PInf = NaN"
| "fl_div dt NInf NInf = NaN"
| "fl_div dt PInf (Fin y) = (if y < 0 then NInf else PInf)"
| "fl_div dt NInf (Fin y) = (if y < 0 then PInf else NInf)"
| "fl_div dt (Fin x) PInf = Fin 0"
| "fl_div dt (Fin x) NInf = Fin 0"
| "fl_div dt (Fin x) (Fin y) =
     (if y = 0 then (if x = 0 then NaN else if 0 < x then PInf else NInf)
      else fl_round dt (x / y))"

text \<open>Comparisons: every comparison with NaN is false.\<close>

fun fl_lt :: "fl \<Rightarrow> fl \<Rightarrow> bool" where
  "fl_lt NaN _ = False"
| "fl_lt _ NaN = False"
| "fl_lt PInf _ = False"
| "fl_lt _ NInf = False"
| "fl_lt NInf _ = True"
| "fl_lt _ PInf = True"
| "fl_lt (Fin x) (Fin y) = (x < y)"

fun fl_le :: "fl \<Rightarrow> fl \<Rightarrow> bool" where
  "fl_le NaN _ = False"
| "fl_le _ NaN = False"
| "fl_le NInf _ = True"
| "fl_le _ PInf = True"
| "fl_le PInf _ = False"
| "fl_le _ NInf = False"
| "fl_le (Fin x) (Fin y) = (x \<le> y)"

definition fl_gt :: "fl \<Rightarrow> fl \<Rightarrow> bool" where
  "fl_gt x y = fl_lt y x"

definition fl_ge :: "fl \<Rightarrow> fl \<Rightarrow> bool" where
  "fl_ge x y = fl_le y x"

text \<open>\<^verbatim>\<open>np.maximum\<close> and \<^verbatim>\<open>np.minimum\<close> propagate NaN from either argument.\<close>

definition fl_maximum :: "fl \<Rightarrow> fl \<Rightarrow> fl" where
  "fl_maximum x y = (if x = NaN \<or> y = NaN then NaN else if fl_lt x y then y else x)"

definition fl_minimum :: "fl \<Rightarrow> fl \<Rightarrow> fl" where
  "fl_minimum x y = (if x = NaN \<or> y = NaN then NaN else if fl_lt y x then y else x)"

fun isfinite :: "fl \<Rightarrow> bool" where
  "isfinite (Fin _) = True"
| "isfinite _ = False"

fun isnan :: "fl \<Rightarrow> bool" where
  "isnan NaN = True"
| "isnan _ = False"

section \<open>Two-dimensional arrays\<close>

text \<open>
  A raster is a 2-D array: its rows, and the number of columns (which the rows do not
  determine when there are none). \<open>rect\<close> is the representation invariant: every row has
  \<open>ncols\<close> entries. The shape is \<open>(nrows, ncols)\<close>.
\<close>

record 'a ndarray =
  ncols :: nat
  rows :: "'a list list"

definition nrows :: "'a ndarray \<Rightarrow> nat" where
  "nrows a = length (rows a)"

definition shape :: "'a ndarray \<Rightarrow> nat \<times> nat" where
  "shape a = (nrows a, ncols a)"

definition rect :: "'a ndarray \<Rightarrow> bool" where
  "rect a = list_all (\<lambda>r. length r = ncols a) (rows a)"

definition px :: "'a ndarray \<Rightarrow> nat \<Rightarrow> nat \<Rightarrow> 'a" where
  "px a i j = rows a ! i ! j"

text \<open>An elementwise unary operation, for instance \<^verbatim>\<open>np.isnan(a)\<close> or \<^verbatim>\<open>a > 0\<close>.\<close>

definition nd_map :: "('a \<Rightarrow> 'b) \<Rightarrow> 'a ndarray \<Rightarrow> 'b ndarray" where
  "nd_map f a = \<lparr>ncols = ncols a, rows = map (map f) (rows a)\<rparr>"

text \<open>An elementwise binary operation on two arrays of one shape.\<close>

definition nd_zip :: "('a \<Rightarrow> 'b \<Rightarrow> 'c) \<Rightarrow> 'a ndarray \<Rightarrow> 'b ndarray \<Rightarrow> 'c ndarray" where
  "nd_zip f a b = \<lparr>ncols = ncols a, rows = map2 (map2 f) (rows a) (rows b)\<rparr>"

text \<open>\<^verbatim>\<open>np.full(shape, fill_value)\<close>.\<close>

definition np_full :: "nat \<times> nat \<Rightarrow> 'a \<Rightarrow> 'a ndarray" where
  "np_full sh v = \<lparr>ncols = snd sh, rows = replicate (fst sh) (replicate (snd sh) v)\<rparr>"

text \<open>
  Boolean-mask assignment \<^verbatim>\<open>a[mask] = v\<close>, for a mask of the shape of \<open>a\<close>: the
  entries where the mask is true become \<open>v\<close>.
\<close>

definition set_where :: "'a ndarray \<Rightarrow> bool ndarray \<Rightarrow> 'a \<Rightarrow> 'a ndarray" where
  "set_where a msk v = nd_zip (\<lambda>x m. if m then v else x) a msk"

section \<open>Severity classification\<close>

record BurnSeverityClass =
  name :: string
  dnbr_min :: fl
  dnbr_max :: fl
  color :: "int \<times> int \<times> int"

definition BURN_SEVERITY_CLASSES :: "BurnSeverityClass list" where
  "BURN_SEVERITY_CLASSES =
    [\<lparr>name = ''Enhanced Regrowth'', dnbr_min = Fin (- 0.500), dnbr_max = Fin (- 0.250), color = (26, 152, 80)\<rparr>,
     \<lparr>name = ''High Regrowth'', dnbr_min = Fin (- 0.250), dnbr_max = Fin (- 0.100), color = (102, 189, 99)\<rparr>,
     \<lparr>name = ''Unburned'', dnbr_min = Fin (- 0.100), dnbr_max = Fin 0.100, color = (255, 255, 190)\<rparr>,
     \<lparr>name = ''Low Severity'', dnbr_min = Fin 0.100, dnbr_max = Fin 0.270, color = (253, 174, 97)\<rparr>,
     \<lparr>name = ''Moderate Severity'', dnbr_min = Fin 0.270, dnbr_max = Fin 0.660, color = (244, 109, 67)\<rparr>,
     \<lparr>name = ''High Severity'', dnbr_min = Fin 0.660, dnbr_max = Fin 1.300, color = (215, 48, 39)\<rparr>]"

text \<open>
  The mask of one band, \<^verbatim>\<open>(dnbr >= severity.dnbr_min) & (dnbr < severity.dnbr_max)\<close>.
\<close>

definition in_band :: "BurnSeverityClass \<Rightarrow> fl \<Rightarrow> bool" where
  "in_band severity v = (fl_ge v (dnbr_min severity) \<and> fl_lt v (dnbr_max severity))"

text \<open>
  The loop \<^verbatim>\<open>for idx, severity in enumerate(...)\<close> of \<^verbatim>\<open>classify_dnbr\<close>, from
  index \<open>idx\<close> on, over any list of bands. Each iteration overwrites the entries of
  \<open>class_raster\<close> under the band's mask with the index, stored as an unsigned byte
  (\<open>of_nat\<close> is exact for the indices up to 255).
\<close>

fun classify_loop ::
  "nat \<Rightarrow> BurnSeverityClass list \<Rightarrow> fl ndarray \<Rightarrow> 8 word ndarray \<Rightarrow> 8 word ndarray" where
  "classify_loop idx [] dnbr class_raster = class_raster"
| "classify_loop idx (severity # rest) dnbr class_raster =
     classify_loop (Suc idx) rest dnbr
       (set_where class_raster (nd_map (in_band severity) dnbr) (of_nat idx))"

definition classify_bands :: "BurnSeverityClass list \<Rightarrow> fl ndarray \<Rightarrow> 8 word ndarray" where
  "classify_bands bands dnbr = classify_loop 0 bands dnbr (np_full (shape dnbr) 255)"

definition classify_dnbr :: "fl ndarray \<Rightarrow> 8 word ndarray" where
  "classify_dnbr dnbr = classify_bands BURN_SEVERITY_CLASSES dnbr"

text \<open>What the loop does to one pixel whose current class is \<open>c\<close>.\<close>

fun classify_px :: "nat \<Rightarrow> BurnSeverityClass list \<Rightarrow> fl \<Rightarrow> 8 word \<Rightarrow> 8 word" where
  "classify_px idx [] v c = c"
| "classify_px idx (severity # rest) v c =
     classify_px (Suc idx) rest v (if in_band severity v then of_nat idx else c)"

text \<open>
  The index of the last band, counted from \<open>idx\<close>, whose interval contains \<open>v\<close>.
\<close>

fun last_match :: "nat \<Rightarrow> BurnSeverityClass list \<Rightarrow> fl \<Rightarrow> nat option" where
  "last_match idx [] v = None"
| "last_match idx (severity # rest) v =
     (case last_match (Suc idx) rest v of
        Some k \<Rightarrow> Some k
      | None \<Rightarrow> if in_band severity v then Some idx else None)"

text \<open>
  A table of two overlapping bands, \<open>[0, 1)\<close> and \<open>[0.5, 2)\<close>, and a raster of one
  pixel lying in both.
\<close>

definition overlapping_bands :: "BurnSeverityClass list" where
  "overlapping_bands =
    [\<lparr>name = ''A'', dnbr_min = Fin 0, dnbr_max = Fin 1, color = (0, 0, 0)\<rparr>,
     \<lparr>name = ''B'', dnbr_min = Fin 0.5, dnbr_max = Fin 2, color = (0, 0, 0)\<rparr>]"

definition one_pixel :: "'a \<Rightarrow> 'a ndarray" where
  "one_pixel v = \<lparr>ncols = 1, rows = [[v]]\<rparr>"

section \<open>Burn area statistics\<close>

text \<open>Boolean-mask selection \<^verbatim>\<open>a[mask]\<close> yields the selected entries in row-major order.\<close>

definition ravel :: "'a ndarray \<Rightarrow> 'a list" where
  "ravel a = concat (rows a)"

definition pixel_area_km2 :: real where
  "pixel_area_km2 = 100 / 1000000"

text \<open>
  \<^verbatim>\<open>NBRPipeline.compute_statistics\<close>, as a function of \<^verbatim>\<open>result.dnbr.array\<close>, the
  only part of its argument it reads. The dictionary is the list of its items in
  insertion order. The pixel counts are integers, and the products and quotients with
  them are finite floating-point numbers.
\<close>

definition compute_statistics :: "fl ndarray \<Rightarrow> (string \<times> fl) list" where
  "compute_statistics dnbr =
    (let valid_dnbr = filter (\<lambda>v. \<not> isnan v) (ravel dnbr);
         total_pixels = length valid_dnbr;
         burned_pixels = length (filter (\<lambda>v. fl_gt v (Fin 0.10)) valid_dnbr);
         high_severity = length (filter (\<lambda>v. fl_gt v (Fin 0.66)) valid_dnbr)
     in [(''total_area_km2'', Fin (real total_pixels * pixel_area_km2)),
         (''burned_area_km2'', Fin (real burned_pixels * pixel_area_km2)),
         (''burned_percentage'',
            if total_pixels > 0 then Fin (100 * real burned_pixels / real total_pixels)
            else Fin 0.0),
         (''high_severity_km2'', Fin (real high_severity * pixel_area_km2)),
         (''high_severity_percentage'',
            if total_pixels > 0 then Fin (100 * real high_severity / real total_pixels)
            else Fin 0.0)])"

text \<open>The array \<open>a\<close> with the entry in row \<open>i\<close> and column \<open>j\<close> replaced by \<open>v\<close>.\<close>

definition set_px :: "'a ndarray \<Rightarrow> nat \<Rightarrow> nat \<Rightarrow> 'a \<Rightarrow> 'a ndarray" where
  "set_px a i j v = a\<lparr>rows := (rows a)[i := (rows a ! i)[j := v]]\<rparr>"

section \<open>Arithmetic on arrays\<close>

text \<open>
  A binary operator on two arrays follows NumPy's broadcasting: the shapes are
  compatible when, in each dimension, the sizes are equal or one of them is 1, and the
  dimension of size 1 is stretched to the other size. Incompatible shapes raise
  \<^verbatim>\<open>ValueError\<close> (operands could not be broadcast together).
\<close>

datatype error = ValueError

definition broadcast_dim :: "nat \<Rightarrow> nat \<Rightarrow> nat option" where
  "broadcast_dim m n =
     (if m = n then Some m else if m = 1 then Some n else if n = 1 then Some m else None)"

definition stretch :: "nat \<Rightarrow> 'a list \<Rightarrow> 'a list" where
  "stretch n xs = (if length xs = n then xs else replicate n (hd xs))"

definition np_binop :: "('a \<Rightarrow> 'b \<Rightarrow> 'c) \<Rightarrow> 'a ndarray \<Rightarrow> 'b ndarray \<Rightarrow> error + 'c ndarray" where
  "np_binop f a b =
     (case (broadcast_dim (nrows a) (nrows b), broadcast_dim (ncols a) (ncols b)) of
        (Some r, Some c) \<Rightarrow>
          Inr \<lparr>ncols = c,
               rows = map2 (\<lambda>ra rb. map2 f (stretch c ra) (stretch c rb))
                        (stretch r (rows a)) (stretch r (rows b))\<rparr>
      | _ \<Rightarrow> Inl ValueError)"

definition calculate_dnbr :: "dtype \<Rightarrow> fl ndarray \<Rightarrow> fl ndarray \<Rightarrow> error + fl ndarray" where
  "calculate_dnbr dt pre_fire_nbr post_fire_nbr = np_binop (fl_sub dt) pre_fire_nbr post_fire_nbr"

text \<open>
  The comparison \<open>==\<close> of two floating-point numbers (NaN equals nothing), and the
  NaN-aware equality of the specification: two arrays of one shape whose entries are
  pairwise both NaN or equal.
\<close>

definition fl_eq :: "fl \<Rightarrow> fl \<Rightarrow> bool" where
  "fl_eq x y = (\<not> isnan x \<and> \<not> isnan y \<and> x = y)"

definition nan_eq :: "fl \<Rightarrow> fl \<Rightarrow> bool" where
  "nan_eq x y = (isnan x \<and> isnan y \<or> fl_eq x y)"

definition array_equal_nan :: "fl ndarray \<Rightarrow> fl ndarray \<Rightarrow> bool" where
  "array_equal_nan a b = (shape a = shape b \<and> list_all2 (list_all2 nan_eq) (rows a) (rows b))"

section \<open>Overlay rendering\<close>

text \<open>
  \<^verbatim>\<open>np.clip(a, a_min, a_max)\<close> is \<^verbatim>\<open>np.minimum(a_max, np.maximum(a, a_min))\<close>, and
  \<^verbatim>\<open>np.nan_to_num\<close> replaces NaN and the two infinities by the given numbers.
\<close>

definition fl_clip :: "fl \<Rightarrow> fl \<Rightarrow> fl \<Rightarrow> fl" where
  "fl_clip v a_min a_max = fl_minimum a_max (fl_maximum v a_min)"

fun nan_to_num :: "fl \<Rightarrow> fl \<Rightarrow> fl \<Rightarrow> fl \<Rightarrow> fl" where
  "nan_to_num nan posinf neginf NaN = nan"
| "nan_to_num nan posinf neginf PInf = posinf"
| "nan_to_num nan posinf neginf NInf = neginf"
| "nan_to_num nan posinf neginf (Fin x) = Fin x"

definition normalize_for_overlay :: "dtype \<Rightarrow> fl ndarray \<Rightarrow> fl \<Rightarrow> fl \<Rightarrow> fl ndarray" where
  "normalize_for_overlay dt array min_val max_val =
    (let clipped = nd_map (\<lambda>v. fl_clip v min_val max_val) array;
         normalized =
           nd_map (\<lambda>v. fl_div dt (fl_sub dt v min_val) (fl_sub dt max_val min_val)) clipped
     in nd_map (nan_to_num (Fin 0.0) (Fin 1.0) (Fin 0.0)) normalized)"

text \<open>
  The alpha channel \<^verbatim>\<open>rgba[..., 3]\<close> of \<^verbatim>\<open>colorize\<close>, an array of unsigned bytes:
  \<^verbatim>\<open>(values_flat > 0).astype(np.uint8) * 180\<close>, reshaped to the shape of \<open>values\<close>.
  The three colour channels are computed apart from it (they are written to
  \<^verbatim>\<open>rgba[:, :3]\<close>) and are not modelled.
\<close>

definition colorize_alpha :: "fl ndarray \<Rightarrow> 8 word ndarray" where
  "colorize_alpha values = nd_map (\<lambda>v. (if fl_gt v (Fin 0) then 1 else 0) * 180) values"

text \<open>
  The alpha channel of the image that \<^verbatim>\<open>raster_overlay\<close> hands to the map:
  \<^verbatim>\<open>colorize(normalize_for_overlay(array), colormap)\<close>, with the default bounds
  \<open>-1.0\<close> and \<open>1.0\<close> of the normalization.
\<close>

definition raster_overlay_alpha :: "dtype \<Rightarrow> fl ndarray \<Rightarrow> 8 word ndarray" where
  "raster_overlay_alpha dt array =
     colorize_alpha (normalize_for_overlay dt array (Fin (- 1.0)) (Fin 1.0))"

section \<open>The burn ratio, with the arrays in a store\<close>

text \<open>
  \<^verbatim>\<open>_safe_divide\<close> assigns into an array in place, so the arrays live in a store here:
  an address is an index into the list of the arrays allocated so far, and a function
  takes the store and the addresses of its arguments and returns the new store and the
  address of its result. Every NumPy operator allocates its result; only the masked
  assignment \<^verbatim>\<open>result[~np.isfinite(result)] = np.nan\<close> updates an existing array. The
  boolean mask is a temporary that nothing else refers to and is not kept in the store.
\<close>

type_synonym store = "fl ndarray list"

definition alloc :: "store \<Rightarrow> fl ndarray \<Rightarrow> store \<times> nat" where
  "alloc s a = (s @ [a], length s)"

definition safe_divide :: "dtype \<Rightarrow> store \<Rightarrow> nat \<Rightarrow> nat \<Rightarrow> error + store \<times> nat" where
  "safe_divide dt s numerator denominator =
     (case np_binop (fl_div dt) (s ! numerator) (s ! denominator) of
        Inl e \<Rightarrow> Inl e
      | Inr q \<Rightarrow>
          (let (s1, result) = alloc s q;
               s2 = s1[result := set_where (s1 ! result)
                                   (nd_map (\<lambda>v. \<not> isfinite v) (s1 ! result)) NaN]
           in Inr (s2, result)))"

definition calculate_nbr :: "dtype \<Rightarrow> store \<Rightarrow> nat \<Rightarrow> nat \<Rightarrow> error + store \<times> nat" where
  "calculate_nbr dt s nir swir =
     (case np_binop (fl_sub dt) (s ! nir) (s ! swir) of
        Inl e \<Rightarrow> Inl e
      | Inr n \<Rightarrow>
          (let (s1, numerator) = alloc s n in
           case np_binop (fl_add dt) (s1 ! nir) (s1 ! swir) of
             Inl e \<Rightarrow> Inl e
           | Inr d \<Rightarrow>
               (let (s2, denominator) = alloc s1 d
                in safe_divide dt s2 numerator denominator)))"

text \<open>What \<^verbatim>\<open>calculate_nbr\<close> computes on one pixel.\<close>

definition nbr_px :: "dtype \<Rightarrow> fl \<Rightarrow> fl \<Rightarrow> fl" where
  "nbr_px dt a b =
     (let q = fl_div dt (fl_sub dt a b) (fl_add dt a b) in if \<not> isfinite q then NaN else q)"

section \<open>Basic facts about arrays\<close>

lemma rect_nd_map: "rect (nd_map f a) = rect a"
  by (simp add: rect_def nd_map_def list_all_iff)

lemma shape_nd_map: "shape (nd_map f a) = shape a"
  by (simp add: shape_def nrows_def nd_map_def)

lemma rect_np_full: "rect (np_full sh v)"
  by (simp add: rect_def np_full_def list_all_iff)

lemma shape_np_full: "shape (np_full sh v) = sh"
  by (simp add: shape_def nrows_def np_full_def)

lemma map2_map2_same:
  "list_all (\<lambda>r. length r = n) xs \<Longrightarrow> list_all (\<lambda>r. length r = n) ys \<Longrightarrow>
   length xs = length ys \<Longrightarrow>
   list_all (\<lambda>r. length r = n) (map2 (map2 f) xs ys)"
  by (induction xs ys rule: list_induct2') auto

lemma rect_nd_zip:
  "rect a \<Longrightarrow> rect b \<Longrightarrow> shape a = shape b \<Longrightarrow> rect (nd_zip f a b)"
  by (simp add: rect_def nd_zip_def shape_def nrows_def map2_map2_same)

lemma shape_nd_zip:
  "shape a = shape b \<Longrightarrow> shape (nd_zip f a b) = shape a"
  by (simp add: nd_zip_def shape_def nrows_def)

section \<open>The classification loop, pixel by pixel\<close>

lemma map2_mask_row:
  "map2 (\<lambda>x m. if m then w else x) xs (map p ys) = map2 (\<lambda>v c. if p v then w else c) ys xs"
  by (induction xs ys rule: list_induct2') auto

lemma map2_mask_rows:
  "map2 (map2 (\<lambda>x m. if m then w else x)) xss (map (map p) yss) =
   map2 (map2 (\<lambda>v c. if p v then w else c)) yss xss"
  by (induction xss yss rule: list_induct2') (auto simp: map2_mask_row)

lemma set_where_nd_map:
  "ncols a = ncols d \<Longrightarrow>
   set_where a (nd_map p d) w = nd_zip (\<lambda>v c. if p v then w else c) d a"
  by (simp add: set_where_def nd_zip_def nd_map_def map2_mask_rows)

lemma map2_compose_row:
  "map2 F ys (map2 H ys xs) = map2 (\<lambda>v c. F v (H v c)) ys xs"
  by (induction ys xs rule: list_induct2') auto

lemma map2_compose_rows:
  "map2 (map2 F) yss (map2 (map2 H) yss xss) = map2 (map2 (\<lambda>v c. F v (H v c))) yss xss"
  by (induction yss xss rule: list_induct2') (auto simp: map2_compose_row)

lemma nd_zip_compose:
  "nd_zip F d (nd_zip H d a) = nd_zip (\<lambda>v c. F v (H v c)) d a"
  by (simp add: nd_zip_def map2_compose_rows)

lemma map2_snd_row: "length ys = length xs \<Longrightarrow> map2 (\<lambda>v c. c) ys xs = xs"
  by (induction ys xs rule: list_induct2) auto

lemma map2_snd_rows:
  "length yss = length xss \<Longrightarrow> list_all (\<lambda>r. length r = n) yss \<Longrightarrow>
   list_all (\<lambda>r. length r = n) xss \<Longrightarrow> map2 (map2 (\<lambda>v c. c)) yss xss = xss"
  by (induction yss xss rule: list_induct2) (auto simp: map2_snd_row)

lemma nd_zip_snd:
  "rect d \<Longrightarrow> rect a \<Longrightarrow> shape a = shape d \<Longrightarrow> nd_zip (\<lambda>v c. c) d a = a"
  by (simp add: nd_zip_def rect_def shape_def nrows_def map2_snd_rows)

lemma classify_loop_px:
  "rect dnbr \<Longrightarrow> rect class_raster \<Longrightarrow> shape class_raster = shape dnbr \<Longrightarrow>
   classify_loop idx bands dnbr class_raster =
   nd_zip (classify_px idx bands) dnbr class_raster"
proof (induction bands arbitrary: idx class_raster)
  case Nil
  have "classify_px idx [] = (\<lambda>v c. c)"
    by (intro ext) simp
  with Nil show ?case
    by (simp add: nd_zip_snd)
next
  case (Cons severity rest)
  let ?h = "\<lambda>v c. if in_band severity v then of_nat idx else c"
  have nc: "ncols class_raster = ncols dnbr"
    using Cons.prems by (simp add: shape_def)
  have sw: "set_where class_raster (nd_map (in_band severity) dnbr) (of_nat idx) =
            nd_zip ?h dnbr class_raster"
    using nc by (rule set_where_nd_map)
  have r: "rect (nd_zip ?h dnbr class_raster)"
    using Cons.prems by (simp add: rect_nd_zip)
  have sh: "shape (nd_zip ?h dnbr class_raster) = shape dnbr"
    using Cons.prems by (simp add: shape_nd_zip)
  have "classify_loop (Suc idx) rest dnbr (nd_zip ?h dnbr class_raster) =
        nd_zip (classify_px (Suc idx) rest) dnbr (nd_zip ?h dnbr class_raster)"
    using Cons.IH [OF Cons.prems(1) r sh] .
  then show ?case
    by (simp add: sw nd_zip_compose)
qed

lemma map2_replicate_row:
  "length ys = n \<Longrightarrow> map2 F ys (replicate n c) = map (\<lambda>v. F v c) ys"
  by (induction ys arbitrary: n) auto

lemma map2_replicate_rows:
  "list_all (\<lambda>r. length r = n) yss \<Longrightarrow> length yss = m \<Longrightarrow>
   map2 (map2 F) yss (replicate m (replicate n c)) = map (map (\<lambda>v. F v c)) yss"
  by (induction yss arbitrary: m) (auto simp: map2_replicate_row)

lemma nd_zip_np_full:
  "rect d \<Longrightarrow> nd_zip F d (np_full (shape d) c) = nd_map (\<lambda>v. F v c) d"
  by (simp add: nd_zip_def np_full_def nd_map_def rect_def shape_def nrows_def map2_replicate_rows)

lemma classify_bands_px:
  "rect dnbr \<Longrightarrow> classify_bands bands dnbr = nd_map (\<lambda>v. classify_px 0 bands v 255) dnbr"
  by (simp add: classify_bands_def classify_loop_px rect_np_full shape_np_full nd_zip_np_full)

lemma px_nd_map:
  "i < nrows a \<Longrightarrow> j < length (rows a ! i) \<Longrightarrow> px (nd_map f a) i j = f (px a i j)"
  by (simp add: px_def nd_map_def nrows_def)

lemma rect_row_length: "rect a \<Longrightarrow> i < nrows a \<Longrightarrow> length (rows a ! i) = ncols a"
  by (simp add: rect_def nrows_def list_all_length)

section \<open>The reference table\<close>

lemma classify_px_default:
  "classify_px 0 BURN_SEVERITY_CLASSES v 255 =
     (case v of
        Fin x \<Rightarrow>
          (if 0.66 \<le> x \<and> x < 1.3 then 5
           else if 0.27 \<le> x \<and> x < 0.66 then 4
           else if 0.1 \<le> x \<and> x < 0.27 then 3
           else if - 0.1 \<le> x \<and> x < 0.1 then 2
           else if - 0.25 \<le> x \<and> x < - 0.1 then 1
           else if - 0.5 \<le> x \<and> x < - 0.25 then 0
           else 255)
      | _ \<Rightarrow> 255)"
  by (cases v) (simp_all add: BURN_SEVERITY_CLASSES_def in_band_def fl_ge_def)

lemma in_band_default:
  "k < 6 \<Longrightarrow> in_band (BURN_SEVERITY_CLASSES ! k) (Fin x) =
     (k = 0 \<and> - 0.5 \<le> x \<and> x < - 0.25 \<or> k = 1 \<and> - 0.25 \<le> x \<and> x < - 0.1 \<or>
      k = 2 \<and> - 0.1 \<le> x \<and> x < 0.1 \<or> k = 3 \<and> 0.1 \<le> x \<and> x < 0.27 \<or>
      k = 4 \<and> 0.27 \<le> x \<and> x < 0.66 \<or> k = 5 \<and> 0.66 \<le> x \<and> x < 1.3)"
proof -
  assume "k < 6"
  then consider "k = 0" | "k = 1" | "k = 2" | "k = 3" | "k = 4" | "k = 5"
    by linarith
  then show ?thesis
    by cases (simp_all add: BURN_SEVERITY_CLASSES_def in_band_def fl_ge_def)
qed

lemma classify_px_in_domain:
  assumes "- 0.5 \<le> x" "x < 1.3"
  shows "\<exists>k<6. classify_px 0 BURN_SEVERITY_CLASSES (Fin x) 255 = of_nat k \<and>
           in_band (BURN_SEVERITY_CLASSES ! k) (Fin x) \<and>
           (\<forall>k'<6. in_band (BURN_SEVERITY_CLASSES ! k') (Fin x) \<longrightarrow> k' = k)"
proof -
  consider "x < - 0.25" | "- 0.25 \<le> x \<and> x < - 0.1" | "- 0.1 \<le> x \<and> x < 0.1"
    | "0.1 \<le> x \<and> x < 0.27" | "0.27 \<le> x \<and> x < 0.66" | "0.66 \<le> x"
    by linarith
  then show ?thesis
  proof cases
    case 1
    with assms show ?thesis
      by (intro exI [of _ 0]) (simp add: classify_px_default in_band_default)
  next
    case 2
    with assms show ?thesis
      by (intro exI [of _ 1]) (simp add: classify_px_default in_band_default)
  next
    case 3
    with assms show ?thesis
      by (intro exI [of _ 2]) (simp add: classify_px_default in_band_default)
  next
    case 4
    with assms show ?thesis
      by (intro exI [of _ 3]) (simp add: classify_px_default in_band_default)
  next
    case 5
    with assms show ?thesis
      by (intro exI [of _ 4]) (simp add: classify_px_default in_band_default)
  next
    case 6
    with assms show ?thesis
      by (intro exI [of _ 5]) (simp add: classify_px_default in_band_default)
  qed
qed

lemma classify_px_out_of_domain:
  "\<not> (\<exists>x. v = Fin x \<and> - 0.5 \<le> x \<and> x < 1.3) \<Longrightarrow>
   classify_px 0 BURN_SEVERITY_CLASSES v 255 = 255"
  by (cases v) (auto simp: classify_px_default)

lemma px_classify_dnbr:
  "rect dnbr \<Longrightarrow> i < nrows dnbr \<Longrightarrow> j < ncols dnbr \<Longrightarrow>
   px (classify_dnbr dnbr) i j = classify_px 0 BURN_SEVERITY_CLASSES (px dnbr i j) 255"
  by (simp add: classify_dnbr_def classify_bands_px px_nd_map rect_row_length)

lemma band_names:
  "name (BURN_SEVERITY_CLASSES ! 3) = ''Low Severity'' \<and>
   name (BURN_SEVERITY_CLASSES ! 4) = ''Moderate Severity'' \<and>
   name (BURN_SEVERITY_CLASSES ! 5) = ''High Severity''"
  by (simp add: BURN_SEVERITY_CLASSES_def)

section \<open>Claims about the classifier\<close>

text \<open>
  C3. \<^verbatim>\<open>classify_dnbr\<close> is a total function of the raster (it has no error case and
  keeps the shape). A pixel holding a finite value in \<open>[-0.5, 1.3)\<close> gets one of the six
  indices 0..5, namely the index of the one band of the table that contains the value;
  every other pixel (NaN, an infinity, a value below -0.5 or at or above 1.3) gets the
  sentinel 255. Lower bounds are inclusive and upper bounds exclusive: the value 0.100
  is Low Severity (index 3) and the value 0.270 is Moderate Severity (index 4).
\<close>

theorem classify_dnbr_total:
  assumes "rect dnbr" and "i < nrows dnbr" and "j < ncols dnbr"
  shows "shape (classify_dnbr dnbr) = shape dnbr \<and>
    (\<forall>x. px dnbr i j = Fin x \<and> - 0.5 \<le> x \<and> x < 1.3 \<longrightarrow>
       (\<exists>k<6. px (classify_dnbr dnbr) i j = of_nat k \<and>
          in_band (BURN_SEVERITY_CLASSES ! k) (Fin x) \<and>
          (\<forall>k'<6. in_band (BURN_SEVERITY_CLASSES ! k') (Fin x) \<longrightarrow> k' = k))) \<and>
    (\<not> (\<exists>x. px dnbr i j = Fin x \<and> - 0.5 \<le> x \<and> x < 1.3) \<longrightarrow>
       px (classify_dnbr dnbr) i j = 255) \<and>
    (px dnbr i j = Fin 0.100 \<longrightarrow>
       px (classify_dnbr dnbr) i j = 3 \<and> name (BURN_SEVERITY_CLASSES ! 3) = ''Low Severity'') \<and>
    (px dnbr i j = Fin 0.270 \<longrightarrow>
       px (classify_dnbr dnbr) i j = 4 \<and>
       name (BURN_SEVERITY_CLASSES ! 4) = ''Moderate Severity'')"
proof -
  have p: "px (classify_dnbr dnbr) i j = classify_px 0 BURN_SEVERITY_CLASSES (px dnbr i j) 255"
    using assms by (rule px_classify_dnbr)
  have "shape (classify_dnbr dnbr) = shape dnbr"
    using assms(1) by (simp add: classify_dnbr_def classify_bands_px shape_nd_map)
  moreover have "\<forall>x. px dnbr i j = Fin x \<and> - 0.5 \<le> x \<and> x < 1.3 \<longrightarrow>
       (\<exists>k<6. px (classify_dnbr dnbr) i j = of_nat k \<and>
          in_band (BURN_SEVERITY_CLASSES ! k) (Fin x) \<and>
          (\<forall>k'<6. in_band (BURN_SEVERITY_CLASSES ! k') (Fin x) \<longrightarrow> k' = k))"
    using classify_px_in_domain by (simp add: p)
  moreover have "\<not> (\<exists>x. px dnbr i j = Fin x \<and> - 0.5 \<le> x \<and> x < 1.3) \<longrightarrow>
       px (classify_dnbr dnbr) i j = 255"
    using classify_px_out_of_domain [of "px dnbr i j"] by (simp add: p)
  moreover have "px dnbr i j = Fin 0.100 \<longrightarrow>
       px (classify_dnbr dnbr) i j = 3 \<and> name (BURN_SEVERITY_CLASSES ! 3) = ''Low Severity''"
    using band_names by (simp add: p classify_px_default)
  moreover have "px dnbr i j = Fin 0.270 \<longrightarrow>
       px (classify_dnbr dnbr) i j = 4 \<and>
       name (BURN_SEVERITY_CLASSES ! 4) = ''Moderate Severity''"
    using band_names by (simp add: p classify_px_default)
  ultimately show ?thesis
    by blast
qed

theorem classify_dnbr_total_witness:
  "rect \<lparr>ncols = 4, rows = [[Fin 0.100, Fin 0.270, NaN, Fin 1.300]]\<rparr> \<and>
   (0::nat) < nrows \<lparr>ncols = 4, rows = [[Fin 0.100, Fin 0.270, NaN, Fin 1.300]]\<rparr> \<and>
   (1::nat) < ncols \<lparr>ncols = 4, rows = [[Fin 0.100, Fin 0.270, NaN, Fin 1.300]]\<rparr> \<and>
   px (classify_dnbr \<lparr>ncols = 4, rows = [[Fin 0.100, Fin 0.270, NaN, Fin 1.300]]\<rparr>) 0 1 = 4"
proof -
  let ?d = "\<lparr>ncols = 4, rows = [[Fin 0.100, Fin 0.270, NaN, Fin 1.300]]\<rparr> :: fl ndarray"
  have r: "rect ?d" by (simp add: rect_def)
  have i: "0 < nrows ?d" by (simp add: nrows_def)
  have j: "1 < ncols ?d" by simp
  have v: "px ?d 0 1 = Fin 0.270" by (simp add: px_def)
  from classify_dnbr_total [OF r i j] v have "px (classify_dnbr ?d) 0 1 = 4"
    by blast
  with r i j show ?thesis
    by blast
qed

lemma classify_px_last_match:
  "classify_px idx bands v c = (case last_match idx bands v of Some k \<Rightarrow> of_nat k | None \<Rightarrow> c)"
  by (induction bands arbitrary: idx c) (auto split: option.splits)

lemma last_match_None:
  "last_match idx bands v = None \<longleftrightarrow> (\<forall>k<length bands. \<not> in_band (bands ! k) v)"
proof (induction bands arbitrary: idx)
  case Nil
  show ?case by simp
next
  case (Cons severity rest)
  have "last_match idx (severity # rest) v = None \<longleftrightarrow>
        last_match (Suc idx) rest v = None \<and> \<not> in_band severity v"
    by (simp split: option.splits)
  then show ?case
    by (auto simp: Cons.IH All_less_Suc2)
qed

lemma last_match_Some:
  "last_match idx bands v = Some m \<longleftrightarrow>
     (\<exists>k<length bands. m = idx + k \<and> in_band (bands ! k) v \<and>
        (\<forall>k'<length bands. k < k' \<longrightarrow> \<not> in_band (bands ! k') v))"
proof (induction bands arbitrary: idx m)
  case Nil
  show ?case by simp
next
  case (Cons severity rest)
  show ?case
  proof (cases "last_match (Suc idx) rest v")
    case None
    then have none: "\<forall>k<length rest. \<not> in_band (rest ! k) v"
      by (simp add: last_match_None)
    show ?thesis
    proof
      assume "last_match idx (severity # rest) v = Some m"
      with None have "in_band severity v" "m = idx"
        by (auto split: if_splits)
      with none show "\<exists>k<length (severity # rest). m = idx + k \<and> in_band ((severity # rest) ! k) v \<and>
        (\<forall>k'<length (severity # rest). k < k' \<longrightarrow> \<not> in_band ((severity # rest) ! k') v)"
        by (intro exI [of _ 0]) (auto simp: less_Suc_eq_0_disj)
    next
      assume "\<exists>k<length (severity # rest). m = idx + k \<and> in_band ((severity # rest) ! k) v \<and>
        (\<forall>k'<length (severity # rest). k < k' \<longrightarrow> \<not> in_band ((severity # rest) ! k') v)"
      then obtain k where k: "k < length (severity # rest)" "m = idx + k"
        "in_band ((severity # rest) ! k) v"
        by blast
      have "k = 0"
      proof (rule ccontr)
        assume "k \<noteq> 0"
        then obtain k0 where "k = Suc k0" by (cases k) auto
        with k none show False by auto
      qed
      with k None show "last_match idx (severity # rest) v = Some m"
        by simp
    qed
  next
    case (Some m')
    then obtain k where k: "k < length rest" "m' = Suc idx + k" "in_band (rest ! k) v"
      "\<forall>k'<length rest. k < k' \<longrightarrow> \<not> in_band (rest ! k') v"
      using Cons.IH [of "Suc idx" m'] by blast
    show ?thesis
    proof
      assume "last_match idx (severity # rest) v = Some m"
      with Some have "m = m'" by simp
      with k show "\<exists>k<length (severity # rest). m = idx + k \<and> in_band ((severity # rest) ! k) v \<and>
        (\<forall>k'<length (severity # rest). k < k' \<longrightarrow> \<not> in_band ((severity # rest) ! k') v)"
        by (intro exI [of _ "Suc k"]) (auto simp: less_Suc_eq_0_disj)
    next
      assume "\<exists>k<length (severity # rest). m = idx + k \<and> in_band ((severity # rest) ! k) v \<and>
        (\<forall>k'<length (severity # rest). k < k' \<longrightarrow> \<not> in_band ((severity # rest) ! k') v)"
      then obtain q where q: "q < length (severity # rest)" "m = idx + q"
        "in_band ((severity # rest) ! q) v"
        "\<forall>k'<length (severity # rest). q < k' \<longrightarrow> \<not> in_band ((severity # rest) ! k') v"
        by blast
      have "q = Suc k"
      proof (rule ccontr)
        assume ne: "q \<noteq> Suc k"
        show False
        proof (cases "q < Suc k")
          case True
          with q(4) k(1,3) show False by auto
        next
          case False
          with ne obtain q0 where q0: "q = Suc q0" "k < q0" by (cases q) auto
          with q(1,3) k(4) show False by auto
        qed
      qed
      with q k Some show "last_match idx (severity # rest) v = Some m"
        by simp
    qed
  qed
qed

lemma px_classify_bands:
  "rect dnbr \<Longrightarrow> i < nrows dnbr \<Longrightarrow> j < ncols dnbr \<Longrightarrow>
   px (classify_bands bands dnbr) i j = classify_px 0 bands (px dnbr i j) 255"
  by (simp add: classify_bands_px px_nd_map rect_row_length)

lemma rect_one_pixel: "rect (one_pixel v)"
  by (simp add: rect_def one_pixel_def)

lemma shape_one_pixel: "nrows (one_pixel v) = 1 \<and> ncols (one_pixel v) = 1 \<and> px (one_pixel v) 0 0 = v"
  by (simp add: nrows_def one_pixel_def px_def)

text \<open>
  C1, as the code has it. Each iteration of the loop overwrites the class of the pixels
  in its band, so over any list of at most 256 bands a pixel ends with the index of the
  LAST band in list order whose half-open interval contains its value, and with 255 when
  no band contains it. \<^verbatim>\<open>classify_dnbr\<close> is this loop over the reference table.
\<close>

theorem classify_bands_last_match:
  assumes "rect dnbr" and "i < nrows dnbr" and "j < ncols dnbr" and "length bands \<le> 256"
  shows "(\<forall>k<length bands.
            in_band (bands ! k) (px dnbr i j) \<and>
            (\<forall>k'<length bands. k < k' \<longrightarrow> \<not> in_band (bands ! k') (px dnbr i j)) \<longrightarrow>
            unat (px (classify_bands bands dnbr) i j) = k) \<and>
         ((\<forall>k<length bands. \<not> in_band (bands ! k) (px dnbr i j)) \<longrightarrow>
            px (classify_bands bands dnbr) i j = 255) \<and>
         classify_dnbr dnbr = classify_bands BURN_SEVERITY_CLASSES dnbr"
proof -
  let ?v = "px dnbr i j"
  have p: "px (classify_bands bands dnbr) i j =
           (case last_match 0 bands ?v of Some k \<Rightarrow> of_nat k | None \<Rightarrow> 255)"
    using assms(1-3) by (simp add: px_classify_bands classify_px_last_match)
  have a: "unat (px (classify_bands bands dnbr) i j) = k"
    if k: "k < length bands" "in_band (bands ! k) ?v"
      "\<forall>k'<length bands. k < k' \<longrightarrow> \<not> in_band (bands ! k') ?v" for k
  proof -
    have "last_match 0 bands ?v = Some k"
      using k by (simp add: last_match_Some)
    moreover have "k < 256"
      using k(1) assms(4) by simp
    ultimately show ?thesis
      by (simp add: p unat_of_nat)
  qed
  have b: "px (classify_bands bands dnbr) i j = 255"
    if "\<forall>k<length bands. \<not> in_band (bands ! k) ?v"
  proof -
    have "last_match 0 bands ?v = None"
      using that by (simp add: last_match_None)
    then show ?thesis
      by (simp add: p)
  qed
  from a b show ?thesis
    by (simp add: classify_dnbr_def)
qed

theorem classify_bands_last_match_witness:
  "rect (one_pixel (Fin 0.7)) \<and> (0::nat) < nrows (one_pixel (Fin 0.7)) \<and>
   (0::nat) < ncols (one_pixel (Fin 0.7)) \<and> length overlapping_bands \<le> 256 \<and>
   in_band (overlapping_bands ! 1) (px (one_pixel (Fin 0.7)) 0 0) \<and>
   unat (px (classify_bands overlapping_bands (one_pixel (Fin 0.7))) 0 0) = 1"
proof -
  let ?d = "one_pixel (Fin 0.7)"
  have r: "rect ?d" by (rule rect_one_pixel)
  have i: "0 < nrows ?d" and j: "0 < ncols ?d"
    by (simp_all add: shape_one_pixel)
  have l: "length overlapping_bands \<le> 256"
    by (simp add: overlapping_bands_def)
  have m: "in_band (overlapping_bands ! 1) (px ?d 0 0)"
    by (simp add: shape_one_pixel overlapping_bands_def in_band_def fl_ge_def)
  have n: "\<forall>k'<length overlapping_bands. 1 < k' \<longrightarrow> \<not> in_band (overlapping_bands ! k') (px ?d 0 0)"
    by (simp add: overlapping_bands_def)
  have "1 < length overlapping_bands"
    by (simp add: overlapping_bands_def)
  with classify_bands_last_match [OF r i j l] m n
  have "unat (px (classify_bands overlapping_bands ?d) 0 0) = 1"
    by blast
  with r i j l m show ?thesis
    by blast
qed

text \<open>
  The claim as the specification words it (the FIRST matching band wins) fails on two
  overlapping bands: the value 0.7 lies in band 0 and in band 1, band 0 is the first
  match, and the loop leaves the index 1.
\<close>

theorem classify_first_match_counterexample:
  "in_band (overlapping_bands ! 0) (Fin 0.7) \<and> in_band (overlapping_bands ! 1) (Fin 0.7) \<and>
   px (classify_bands overlapping_bands (one_pixel (Fin 0.7))) 0 0 = 1 \<and>
   px (classify_bands overlapping_bands (one_pixel (Fin 0.7))) 0 0 \<noteq> 0"
  by (simp add: overlapping_bands_def one_pixel_def in_band_def fl_ge_def classify_bands_def
      shape_def nrows_def np_full_def set_where_def nd_zip_def nd_map_def px_def)

section \<open>Claims about the statistics\<close>

text \<open>
  C7. The statistics are a dictionary with exactly the five keys \<open>total_area_km2\<close>,
  \<open>burned_area_km2\<close>, \<open>burned_percentage\<close>, \<open>high_severity_km2\<close> and
  \<open>high_severity_percentage\<close>, each bound once to a finite floating-point number, and
  each area is a pixel count times the fixed pixel area 0.0001.
\<close>

theorem compute_statistics_keys:
  "map fst (compute_statistics dnbr) =
     [''total_area_km2'', ''burned_area_km2'', ''burned_percentage'',
      ''high_severity_km2'', ''high_severity_percentage''] \<and>
   distinct (map fst (compute_statistics dnbr)) \<and>
   list_all isfinite (map snd (compute_statistics dnbr)) \<and>
   pixel_area_km2 = 0.0001 \<and>
   map_of (compute_statistics dnbr) ''total_area_km2'' =
     Some (Fin (real (length (filter (\<lambda>v. \<not> isnan v) (ravel dnbr))) * 0.0001)) \<and>
   map_of (compute_statistics dnbr) ''burned_area_km2'' =
     Some (Fin (real (length (filter (\<lambda>v. \<not> isnan v \<and> fl_gt v (Fin 0.10)) (ravel dnbr))) * 0.0001)) \<and>
   map_of (compute_statistics dnbr) ''high_severity_km2'' =
     Some (Fin (real (length (filter (\<lambda>v. \<not> isnan v \<and> fl_gt v (Fin 0.66)) (ravel dnbr))) * 0.0001))"
proof -
  have conj_filter: "filter P (filter Q xs) = filter (\<lambda>v. Q v \<and> P v) xs"
    for P Q :: "fl \<Rightarrow> bool" and xs
    by (induction xs) auto
  show ?thesis
    by (simp add: compute_statistics_def Let_def pixel_area_km2_def conj_filter)
qed



section \<open>Replacing one pixel\<close>

lemma count_update_row:
  "j < length xs \<Longrightarrow> P w = P (xs ! j) \<Longrightarrow>
   length (filter P (xs[j := w])) = length (filter P xs)"
  by (induction xs arbitrary: j) (auto split: nat.splits)

lemma count_concat:
  "length (filter P (concat xss)) = sum_list (map (\<lambda>r. length (filter P r)) xss)"
  by (induction xss) auto

lemma count_update_rows:
  assumes "i < length xss" and "j < length (xss ! i)" and "P w = P (xss ! i ! j)"
  shows "length (filter P (concat (xss[i := (xss ! i)[j := w]]))) =
         length (filter P (concat xss))"
proof -
  have "map (\<lambda>r. length (filter P r)) (xss[i := (xss ! i)[j := w]]) =
        (map (\<lambda>r. length (filter P r)) xss)[i := length (filter P ((xss ! i)[j := w]))]"
    by (simp add: map_update)
  also have "\<dots> = (map (\<lambda>r. length (filter P r)) xss)[i := length (filter P (xss ! i))]"
    using assms by (simp add: count_update_row)
  also have "\<dots> = map (\<lambda>r. length (filter P r)) xss"
    using assms(1) by (simp add: list_update_same_conv)
  finally show ?thesis
    by (simp add: count_concat)
qed

lemma compute_statistics_counts:
  "compute_statistics dnbr =
    (let total_pixels = length (filter (\<lambda>v. \<not> isnan v) (ravel dnbr));
         burned_pixels = length (filter (\<lambda>v. \<not> isnan v \<and> fl_gt v (Fin 0.10)) (ravel dnbr));
         high_severity = length (filter (\<lambda>v. \<not> isnan v \<and> fl_gt v (Fin 0.66)) (ravel dnbr))
     in [(''total_area_km2'', Fin (real total_pixels * pixel_area_km2)),
         (''burned_area_km2'', Fin (real burned_pixels * pixel_area_km2)),
         (''burned_percentage'',
            if total_pixels > 0 then Fin (100 * real burned_pixels / real total_pixels)
            else Fin 0.0),
         (''high_severity_km2'', Fin (real high_severity * pixel_area_km2)),
         (''high_severity_percentage'',
            if total_pixels > 0 then Fin (100 * real high_severity / real total_pixels)
            else Fin 0.0)])"
proof -
  have conj_filter: "filter P (filter Q xs) = filter (\<lambda>v. Q v \<and> P v) xs"
    for P Q :: "fl \<Rightarrow> bool" and xs
    by (induction xs) auto
  show ?thesis
    by (simp add: compute_statistics_def Let_def conj_filter)
qed

lemma compute_statistics_set_px:
  assumes "i < nrows dnbr" and "j < length (rows dnbr ! i)"
    and "isnan w = isnan (px dnbr i j)"
    and "fl_gt w (Fin 0.10) = fl_gt (px dnbr i j) (Fin 0.10)"
    and "fl_gt w (Fin 0.66) = fl_gt (px dnbr i j) (Fin 0.66)"
  shows "compute_statistics (set_px dnbr i j w) = compute_statistics dnbr"
proof -
  have c: "length (filter P (ravel (set_px dnbr i j w))) = length (filter P (ravel dnbr))"
    if "P w = P (px dnbr i j)" for P
    using assms(1,2) that
    by (simp add: ravel_def set_px_def px_def nrows_def count_update_rows)
  show ?thesis
    using assms(3-5) by (simp add: compute_statistics_counts c)
qed

lemma compute_statistics_one_pixel:
  "compute_statistics (one_pixel (Fin x)) =
     [(''total_area_km2'', Fin 0.0001),
      (''burned_area_km2'', if 0.10 < x then Fin 0.0001 else Fin 0),
      (''burned_percentage'', if 0.10 < x then Fin 100 else Fin 0),
      (''high_severity_km2'', if 0.66 < x then Fin 0.0001 else Fin 0),
      (''high_severity_percentage'', if 0.66 < x then Fin 100 else Fin 0)]"
  by (simp add: compute_statistics_def one_pixel_def ravel_def fl_gt_def pixel_area_km2_def)

text \<open>
  C9. The classifier and the statistics disagree at the band boundaries. A pixel whose
  value is exactly 0.10 is classified Low Severity (index 3), yet the statistics use the
  strict comparison \<open>dnbr > 0.10\<close>: the pixel counts exactly as an unburned pixel of
  value 0 would, and a raster of this one pixel has burned area 0 and burned percentage
  0. A pixel at exactly 0.66 is classified High Severity (index 5), yet it counts
  exactly as a pixel of value 0.5 would (burned, not high severity), and a raster of this
  one pixel has high-severity area 0 and high-severity percentage 0.
\<close>

theorem boundary_disagreement:
  assumes "rect dnbr" and "i < nrows dnbr" and "j < ncols dnbr"
  shows "(px dnbr i j = Fin 0.10 \<longrightarrow>
            px (classify_dnbr dnbr) i j = 3 \<and>
            compute_statistics dnbr = compute_statistics (set_px dnbr i j (Fin 0))) \<and>
         (px dnbr i j = Fin 0.66 \<longrightarrow>
            px (classify_dnbr dnbr) i j = 5 \<and>
            compute_statistics dnbr = compute_statistics (set_px dnbr i j (Fin 0.5))) \<and>
         name (BURN_SEVERITY_CLASSES ! 3) = ''Low Severity'' \<and>
         name (BURN_SEVERITY_CLASSES ! 5) = ''High Severity'' \<and>
         px (classify_dnbr (one_pixel (Fin 0.10))) 0 0 = 3 \<and>
         map_of (compute_statistics (one_pixel (Fin 0.10))) ''burned_area_km2'' = Some (Fin 0) \<and>
         map_of (compute_statistics (one_pixel (Fin 0.10))) ''burned_percentage'' = Some (Fin 0) \<and>
         px (classify_dnbr (one_pixel (Fin 0.66))) 0 0 = 5 \<and>
         map_of (compute_statistics (one_pixel (Fin 0.66))) ''high_severity_km2'' = Some (Fin 0) \<and>
         map_of (compute_statistics (one_pixel (Fin 0.66))) ''high_severity_percentage'' =
           Some (Fin 0)"
proof -
  have p: "px (classify_dnbr d) k l = classify_px 0 BURN_SEVERITY_CLASSES (px d k l) 255"
    if "rect d" "k < nrows d" "l < ncols d" for d k l
    using that by (rule px_classify_dnbr)
  have jl: "j < length (rows dnbr ! i)"
    using assms by (simp add: rect_row_length)
  have a: "px (classify_dnbr dnbr) i j = 3 \<and>
           compute_statistics dnbr = compute_statistics (set_px dnbr i j (Fin 0))"
    if v: "px dnbr i j = Fin 0.10"
  proof -
    have "px (classify_dnbr dnbr) i j = 3"
      using assms by (simp add: p v classify_px_default)
    moreover have "compute_statistics (set_px dnbr i j (Fin 0)) = compute_statistics dnbr"
      using assms(2) jl by (rule compute_statistics_set_px) (simp_all add: v fl_gt_def)
    ultimately show ?thesis by simp
  qed
  have b: "px (classify_dnbr dnbr) i j = 5 \<and>
           compute_statistics dnbr = compute_statistics (set_px dnbr i j (Fin 0.5))"
    if v: "px dnbr i j = Fin 0.66"
  proof -
    have "px (classify_dnbr dnbr) i j = 5"
      using assms by (simp add: p v classify_px_default)
    moreover have "compute_statistics (set_px dnbr i j (Fin 0.5)) = compute_statistics dnbr"
      using assms(2) jl by (rule compute_statistics_set_px) (simp_all add: v fl_gt_def)
    ultimately show ?thesis by simp
  qed
  have c: "px (classify_dnbr (one_pixel (Fin x))) 0 0 =
           classify_px 0 BURN_SEVERITY_CLASSES (Fin x) 255" for x
    by (simp add: p rect_one_pixel shape_one_pixel)
  have o1: "px (classify_dnbr (one_pixel (Fin 0.10))) 0 0 = 3"
    by (simp add: c classify_px_default)
  have o2: "px (classify_dnbr (one_pixel (Fin 0.66))) 0 0 = 5"
    by (simp add: c classify_px_default)
  have s1: "map_of (compute_statistics (one_pixel (Fin 0.10))) ''burned_area_km2'' = Some (Fin 0) \<and>
            map_of (compute_statistics (one_pixel (Fin 0.10))) ''burned_percentage'' = Some (Fin 0)"
    by (simp add: compute_statistics_one_pixel)
  have s2: "map_of (compute_statistics (one_pixel (Fin 0.66))) ''high_severity_km2'' = Some (Fin 0) \<and>
            map_of (compute_statistics (one_pixel (Fin 0.66))) ''high_severity_percentage'' =
              Some (Fin 0)"
    by (simp add: compute_statistics_one_pixel)
  from a b o1 o2 s1 s2 band_names show ?thesis
    by blast
qed

theorem boundary_disagreement_witness:
  "rect \<lparr>ncols = 2, rows = [[Fin 0.10, Fin 0.66]]\<rparr> \<and>
   (0::nat) < nrows \<lparr>ncols = 2, rows = [[Fin 0.10, Fin 0.66]]\<rparr> \<and>
   (1::nat) < ncols \<lparr>ncols = 2, rows = [[Fin 0.10, Fin 0.66]]\<rparr> \<and>
   px (classify_dnbr \<lparr>ncols = 2, rows = [[Fin 0.10, Fin 0.66]]\<rparr>) 0 1 = 5 \<and>
   compute_statistics \<lparr>ncols = 2, rows = [[Fin 0.10, Fin 0.66]]\<rparr> =
     compute_statistics \<lparr>ncols = 2, rows = [[Fin 0.10, Fin 0.5]]\<rparr>"
proof -
  let ?d = "\<lparr>ncols = 2, rows = [[Fin 0.10, Fin 0.66]]\<rparr> :: fl ndarray"
  have r: "rect ?d" by (simp add: rect_def)
  have i: "0 < nrows ?d" by (simp add: nrows_def)
  have j: "1 < ncols ?d" by simp
  have v: "px ?d 0 1 = Fin 0.66" by (simp add: px_def)
  have u: "set_px ?d 0 1 (Fin 0.5) = \<lparr>ncols = 2, rows = [[Fin 0.10, Fin 0.5]]\<rparr>"
    by (simp add: set_px_def)
  from boundary_disagreement [OF r i j] v
  have "px (classify_dnbr ?d) 0 1 = 5 \<and>
        compute_statistics ?d = compute_statistics (set_px ?d 0 1 (Fin 0.5))"
    by blast
  with r i j u show ?thesis
    by simp
qed

section \<open>Overflow\<close>


lemma overflow_threshold_gt: "2 < overflow_threshold dt"
  by (cases dt) simp_all

lemma fl_round_finite: "\<bar>r\<bar> < overflow_threshold dt \<Longrightarrow> fl_round dt r = Fin r"
  by (simp add: fl_round_def abs_if split: if_splits)

lemma fl_round_small: "\<bar>r\<bar> \<le> 2 \<Longrightarrow> fl_round dt r = Fin r"
  using overflow_threshold_gt [of dt] by (simp add: fl_round_finite)

lemma isfinite_fl_round: "isfinite (fl_round dt r) \<longleftrightarrow> \<bar>r\<bar> < overflow_threshold dt"
  using overflow_threshold_gt [of dt] by (auto simp: fl_round_def abs_if)

lemma fl_round_not_nan: "fl_round dt r \<noteq> NaN"
  by (simp add: fl_round_def)

lemma fl_round_neg: "fl_round dt (- r) = fl_neg (fl_round dt r)"
  using overflow_threshold_gt [of dt] by (auto simp: fl_round_def)


section \<open>Broadcasting\<close>

lemma stretch_same: "length xs = n \<Longrightarrow> stretch n xs = xs"
  by (simp add: stretch_def)

lemma length_stretch: "length (stretch n xs) = n"
  by (simp add: stretch_def)

lemma nth_stretch:
  "length xs = n \<or> length xs = 1 \<Longrightarrow> i < n \<Longrightarrow>
   stretch n xs ! i = xs ! (if length xs = 1 then 0 else i)"
  by (cases xs) (auto simp: stretch_def)

lemma map2_stretch_rows:
  "list_all (\<lambda>r. length r = c) xss \<Longrightarrow> list_all (\<lambda>r. length r = c) yss \<Longrightarrow>
   map2 (\<lambda>ra rb. map2 f (stretch c ra) (stretch c rb)) xss yss = map2 (map2 f) xss yss"
  by (induction xss yss rule: list_induct2') (auto simp: stretch_same)

lemma np_binop_same_shape:
  "rect a \<Longrightarrow> rect b \<Longrightarrow> shape a = shape b \<Longrightarrow> np_binop f a b = Inr (nd_zip f a b)"
  by (simp add: np_binop_def broadcast_dim_def shape_def nrows_def stretch_same rect_def
      map2_stretch_rows nd_zip_def)

lemma np_binop_error:
  "np_binop f a b = Inl ValueError \<longleftrightarrow>
     \<not> (nrows a = nrows b \<or> nrows a = 1 \<or> nrows b = 1) \<or>
     \<not> (ncols a = ncols b \<or> ncols a = 1 \<or> ncols b = 1)"
  by (auto simp: np_binop_def broadcast_dim_def split: option.splits)

lemma broadcast_dim_Some:
  "broadcast_dim m n = Some r \<Longrightarrow>
   r = (if m = 1 then n else m) \<and> (m = r \<or> m = 1) \<and> (n = r \<or> n = 1)"
  by (auto simp: broadcast_dim_def split: if_splits)

lemma px_nd_zip:
  assumes "rect a" and "rect b" and "shape a = shape b" and "i < nrows a" and "j < ncols a"
  shows "px (nd_zip f a b) i j = f (px a i j) (px b i j)"
proof -
  have la: "length (rows a ! i) = ncols a"
    using assms by (simp add: rect_row_length)
  have lb: "length (rows b ! i) = ncols a"
    using assms by (simp add: rect_row_length shape_def)
  have "i < length (rows a)" "i < length (rows b)"
    using assms by (simp_all add: shape_def nrows_def)
  then show ?thesis
    using la lb assms(5) by (simp add: px_def nd_zip_def)
qed

lemma np_binop_cases:
  "np_binop f a b = Inl ValueError \<or> (\<exists>d. np_binop f a b = Inr d)"
  by (auto simp: np_binop_def split: option.splits)

lemma fl_sub_antisym: "fl_sub dt x y = fl_neg (fl_sub dt y x)"
  by (cases x; cases y) (simp_all add: fl_round_neg [symmetric])

lemma fl_sub_nan: "x = NaN \<or> y = NaN \<Longrightarrow> fl_sub dt x y = NaN"
  by (cases x; cases y) simp_all

lemma map2_antisym_row: "map2 (fl_sub dt) xs ys = map fl_neg (map2 (fl_sub dt) ys xs)"
  by (induction xs ys rule: list_induct2') (simp_all del: map_map add: fl_sub_antisym [symmetric])

lemma map2_antisym_rows:
  "map2 (map2 (fl_sub dt)) xss yss = map (map fl_neg) (map2 (map2 (fl_sub dt)) yss xss)"
  by (induction xss yss rule: list_induct2') (simp_all del: map_map add: map2_antisym_row [symmetric])

lemma nd_zip_antisym:
  "ncols a = ncols b \<Longrightarrow> nd_zip (fl_sub dt) a b = nd_map fl_neg (nd_zip (fl_sub dt) b a)"
  using map2_antisym_rows [of dt "rows a" "rows b"] by (simp add: nd_zip_def nd_map_def)

lemma nan_eq_refl: "nan_eq x x"
  by (cases x) (simp_all add: nan_eq_def fl_eq_def)

lemma array_equal_nan_refl: "array_equal_nan a a"
  by (simp add: array_equal_nan_def list_all2_same nan_eq_refl)

lemma broadcast_index:
  "broadcast_dim m n = Some r \<Longrightarrow>
   (m = r \<or> m = 1) \<and> (n = r \<or> n = 1) \<and> r = (if m = 1 then n else m)"
  by (simp add: broadcast_dim_def split: if_splits)

lemma broadcast_index_less:
  "m = r \<or> m = 1 \<Longrightarrow> i < r \<Longrightarrow> (if m = 1 then 0 else i) < (m::nat)"
  by auto

lemma nth_map2_stretch:
  assumes "length xs = r \<or> length xs = 1" and "length ys = r \<or> length ys = 1" and "i < r"
  shows "map2 G (stretch r xs) (stretch r ys) ! i =
         G (xs ! (if length xs = 1 then 0 else i)) (ys ! (if length ys = 1 then 0 else i))"
proof -
  have "map2 G (stretch r xs) (stretch r ys) ! i = G (stretch r xs ! i) (stretch r ys ! i)"
    using assms(3) by (simp add: length_stretch)
  also have "stretch r xs ! i = xs ! (if length xs = 1 then 0 else i)"
    using assms(1,3) by (rule nth_stretch)
  also have "stretch r ys ! i = ys ! (if length ys = 1 then 0 else i)"
    using assms(2,3) by (rule nth_stretch)
  finally show ?thesis .
qed

lemma np_binop_Inr:
  "np_binop f a b = Inr d \<Longrightarrow>
   \<exists>r c. broadcast_dim (nrows a) (nrows b) = Some r \<and>
         broadcast_dim (ncols a) (ncols b) = Some c \<and>
         ncols d = c \<and>
         rows d = map2 (\<lambda>ra rb. map2 f (stretch c ra) (stretch c rb))
                    (stretch r (rows a)) (stretch r (rows b))"
  unfolding np_binop_def by (simp split: option.splits prod.splits) auto

lemma np_binop_broadcast:
  assumes "rect a" and "rect b" and "np_binop f a b = Inr d"
  shows "nrows d = (if nrows a = 1 then nrows b else nrows a) \<and>
         ncols d = (if ncols a = 1 then ncols b else ncols a) \<and>
         rect d \<and>
         (\<forall>i<nrows d. \<forall>j<ncols d.
            px d i j =
              f (px a (if nrows a = 1 then 0 else i) (if ncols a = 1 then 0 else j))
                (px b (if nrows b = 1 then 0 else i) (if ncols b = 1 then 0 else j)))"
proof -
  from np_binop_Inr [OF assms(3)] obtain r c
    where r: "broadcast_dim (nrows a) (nrows b) = Some r"
      and c: "broadcast_dim (ncols a) (ncols b) = Some c"
      and nc: "ncols d = c"
      and rd: "rows d = map2 (\<lambda>ra rb. map2 f (stretch c ra) (stretch c rb))
                          (stretch r (rows a)) (stretch r (rows b))"
    by blast
  from broadcast_index [OF r]
  have ra: "nrows a = r \<or> nrows a = 1" and rb: "nrows b = r \<or> nrows b = 1"
    and r_eq: "r = (if nrows a = 1 then nrows b else nrows a)"
    by blast+
  from broadcast_index [OF c]
  have ca: "ncols a = c \<or> ncols a = 1" and cb: "ncols b = c \<or> ncols b = 1"
    and c_eq: "c = (if ncols a = 1 then ncols b else ncols a)"
    by blast+
  have nr: "nrows d = r"
    unfolding nrows_def rd by (simp add: length_stretch)
  have row: "rows d ! i =
      map2 f (stretch c (rows a ! (if nrows a = 1 then 0 else i)))
             (stretch c (rows b ! (if nrows b = 1 then 0 else i)))" if "i < r" for i
    unfolding rd
    using nth_map2_stretch [of "rows a" r "rows b" i "\<lambda>ra rb. map2 f (stretch c ra) (stretch c rb)"]
      ra rb that
    unfolding nrows_def by blast
  have la: "length (rows a ! (if nrows a = 1 then 0 else i)) = ncols a" if "i < r" for i
    using assms(1) broadcast_index_less [OF ra that] by (rule rect_row_length)
  have lb: "length (rows b ! (if nrows b = 1 then 0 else i)) = ncols b" if "i < r" for i
    using assms(2) broadcast_index_less [OF rb that] by (rule rect_row_length)
  have len: "length (rows d ! i) = c" if "i < r" for i
    unfolding row [OF that] by (simp add: length_stretch)
  have rect_d: "rect d"
    unfolding rect_def list_all_length using len nr nc by (simp add: nrows_def)
  have p: "px d i j =
              f (px a (if nrows a = 1 then 0 else i) (if ncols a = 1 then 0 else j))
                (px b (if nrows b = 1 then 0 else i) (if ncols b = 1 then 0 else j))"
    if i: "i < r" and j: "j < c" for i j
  proof -
    let ?ra = "rows a ! (if nrows a = 1 then 0 else i)"
    let ?rb = "rows b ! (if nrows b = 1 then 0 else i)"
    have "length ?ra = c \<or> length ?ra = 1" and "length ?rb = c \<or> length ?rb = 1"
      using ca cb unfolding la [OF i] lb [OF i] by blast+
    then have "map2 f (stretch c ?ra) (stretch c ?rb) ! j =
        f (?ra ! (if length ?ra = 1 then 0 else j)) (?rb ! (if length ?rb = 1 then 0 else j))"
      using j by (rule nth_map2_stretch)
    then show ?thesis
      unfolding px_def row [OF i] la [OF i] lb [OF i] .
  qed
  from p have "\<forall>i<nrows d. \<forall>j<ncols d.
            px d i j =
              f (px a (if nrows a = 1 then 0 else i) (if ncols a = 1 then 0 else j))
                (px b (if nrows b = 1 then 0 else i) (if ncols b = 1 then 0 else j))"
    unfolding nr nc by blast
  moreover have "nrows d = (if nrows a = 1 then nrows b else nrows a)"
    unfolding nr by (rule r_eq)
  moreover have "ncols d = (if ncols a = 1 then ncols b else ncols a)"
    unfolding nc by (rule c_eq)
  ultimately show ?thesis
    using rect_d by blast
qed

section \<open>Claims about the difference of two rasters\<close>

text \<open>
  C6, as the code has it. \<^verbatim>\<open>calculate_dnbr\<close> is the array subtraction
  \<open>pre - post\<close> and has no shape check of its own. On two rasters of one shape it
  returns the elementwise difference, which is NaN wherever either operand is NaN. On
  two rasters of different shapes it fails, with NumPy's \<^verbatim>\<open>ValueError\<close>, exactly
  when the shapes are not broadcast-compatible (in some dimension the sizes differ and
  neither is 1). In every other case it returns the broadcast difference: an array of
  the broadcast shape whose entry at \<open>(i, j)\<close> is the difference of the entries of
  \<open>pre\<close> and \<open>post\<close> at \<open>(i, j)\<close>, with the index 0 in a dimension of size 1.
\<close>

theorem calculate_dnbr_shapes:
  assumes "rect pre" and "rect post"
  shows "(shape pre = shape post \<longrightarrow>
            calculate_dnbr dt pre post = Inr (nd_zip (fl_sub dt) pre post) \<and>
            shape (nd_zip (fl_sub dt) pre post) = shape pre \<and>
            (\<forall>i<nrows pre. \<forall>j<ncols pre.
               px (nd_zip (fl_sub dt) pre post) i j = fl_sub dt (px pre i j) (px post i j) \<and>
               (px pre i j = NaN \<or> px post i j = NaN \<longrightarrow>
                  px (nd_zip (fl_sub dt) pre post) i j = NaN))) \<and>
         (calculate_dnbr dt pre post = Inl ValueError \<longleftrightarrow>
            \<not> (nrows pre = nrows post \<or> nrows pre = 1 \<or> nrows post = 1) \<or>
            \<not> (ncols pre = ncols post \<or> ncols pre = 1 \<or> ncols post = 1)) \<and>
         (calculate_dnbr dt pre post = Inl ValueError \<or>
            (\<exists>d. calculate_dnbr dt pre post = Inr d)) \<and>
         (\<forall>d. calculate_dnbr dt pre post = Inr d \<longrightarrow>
            nrows d = (if nrows pre = 1 then nrows post else nrows pre) \<and>
            ncols d = (if ncols pre = 1 then ncols post else ncols pre) \<and>
            rect d \<and>
            (\<forall>i<nrows d. \<forall>j<ncols d.
               px d i j =
                 fl_sub dt
                   (px pre (if nrows pre = 1 then 0 else i) (if ncols pre = 1 then 0 else j))
                   (px post (if nrows post = 1 then 0 else i) (if ncols post = 1 then 0 else j))))"
proof -
  have "calculate_dnbr dt pre post = Inr (nd_zip (fl_sub dt) pre post)" if "shape pre = shape post"
    using assms that by (simp add: calculate_dnbr_def np_binop_same_shape)
  moreover have "shape (nd_zip (fl_sub dt) pre post) = shape pre" if "shape pre = shape post"
    using that by (rule shape_nd_zip)
  moreover have "px (nd_zip (fl_sub dt) pre post) i j = fl_sub dt (px pre i j) (px post i j) \<and>
      (px pre i j = NaN \<or> px post i j = NaN \<longrightarrow> px (nd_zip (fl_sub dt) pre post) i j = NaN)"
    if "shape pre = shape post" "i < nrows pre" "j < ncols pre" for i j
    using assms that fl_sub_nan [of "px pre i j" "px post i j" dt] by (simp add: px_nd_zip)
  moreover have "calculate_dnbr dt pre post = Inl ValueError \<longleftrightarrow>
            \<not> (nrows pre = nrows post \<or> nrows pre = 1 \<or> nrows post = 1) \<or>
            \<not> (ncols pre = ncols post \<or> ncols pre = 1 \<or> ncols post = 1)"
    unfolding calculate_dnbr_def by (rule np_binop_error)
  moreover have "calculate_dnbr dt pre post = Inl ValueError \<or>
            (\<exists>d. calculate_dnbr dt pre post = Inr d)"
    unfolding calculate_dnbr_def by (rule np_binop_cases)
  moreover have "nrows d = (if nrows pre = 1 then nrows post else nrows pre) \<and>
            ncols d = (if ncols pre = 1 then ncols post else ncols pre) \<and>
            rect d \<and>
            (\<forall>i<nrows d. \<forall>j<ncols d.
               px d i j =
                 fl_sub dt
                   (px pre (if nrows pre = 1 then 0 else i) (if ncols pre = 1 then 0 else j))
                   (px post (if nrows post = 1 then 0 else i) (if ncols post = 1 then 0 else j)))"
    if "calculate_dnbr dt pre post = Inr d" for d
    using assms that unfolding calculate_dnbr_def by (rule np_binop_broadcast)
  ultimately show ?thesis
    by blast
qed

theorem calculate_dnbr_shapes_witness:
  "rect \<lparr>ncols = 2, rows = [[Fin 1, NaN]]\<rparr> \<and>
   rect \<lparr>ncols = 2, rows = [[Fin 3, Fin 0], [Fin 0.5, Fin 0]]\<rparr> \<and>
   (\<exists>d. calculate_dnbr float64 \<lparr>ncols = 2, rows = [[Fin 1, NaN]]\<rparr>
          \<lparr>ncols = 2, rows = [[Fin 3, Fin 0], [Fin 0.5, Fin 0]]\<rparr> = Inr d \<and>
        nrows d = 2 \<and> ncols d = 2 \<and>
        px d 1 0 = Fin 0.5 \<and> px d 1 1 = NaN)"
proof -
  let ?a = "\<lparr>ncols = 2, rows = [[Fin 1, NaN]]\<rparr> :: fl ndarray"
  let ?b = "\<lparr>ncols = 2, rows = [[Fin 3, Fin 0], [Fin 0.5, Fin 0]]\<rparr> :: fl ndarray"
  have ra: "rect ?a" and rb: "rect ?b"
    by (simp_all add: rect_def)
  have na: "nrows ?a = 1" "ncols ?a = 2" and nb: "nrows ?b = 2" "ncols ?b = 2"
    by (simp_all add: nrows_def)
  note t = calculate_dnbr_shapes [OF ra rb, of float64]
  have "calculate_dnbr float64 ?a ?b \<noteq> Inl ValueError"
    using t na nb by simp
  with t obtain d where d: "calculate_dnbr float64 ?a ?b = Inr d"
    by blast
  with t have f: "nrows d = (if nrows ?a = 1 then nrows ?b else nrows ?a)"
    "ncols d = (if ncols ?a = 1 then ncols ?b else ncols ?a)"
    "\<forall>i<nrows d. \<forall>j<ncols d.
               px d i j =
                 fl_sub float64
                   (px ?a (if nrows ?a = 1 then 0 else i) (if ncols ?a = 1 then 0 else j))
                   (px ?b (if nrows ?b = 1 then 0 else i) (if ncols ?b = 1 then 0 else j))"
    by blast+
  have n: "nrows d = 2" "ncols d = 2"
    using f(1,2) na nb by simp_all
  have "px d 1 0 = fl_sub float64 (px ?a 0 0) (px ?b 1 0)"
    using f(3) n na nb by simp
  then have p0: "px d 1 0 = Fin 0.5"
    by (simp add: px_def fl_round_small)
  have "px d 1 1 = fl_sub float64 (px ?a 0 1) (px ?b 1 1)"
    using f(3) n na nb by simp
  then have p1: "px d 1 1 = NaN"
    by (simp add: px_def)
  from ra rb d n p0 p1 show ?thesis
    by blast
qed

text \<open>
  The claim as the specification words it (different shapes fail) does not hold: a
  raster of shape (1, 2) and one of shape (2, 2) are subtracted by broadcasting the
  single row, and no error is raised.
\<close>

theorem calculate_dnbr_broadcast_counterexample:
  "shape \<lparr>ncols = 2, rows = [[Fin 1, Fin 2]]\<rparr> \<noteq> shape \<lparr>ncols = 2, rows = [[Fin 0, Fin 0], [Fin 1, Fin 1]]\<rparr> \<and>
   calculate_dnbr float64 \<lparr>ncols = 2, rows = [[Fin 1, Fin 2]]\<rparr>
     \<lparr>ncols = 2, rows = [[Fin 0, Fin 0], [Fin 1, Fin 1]]\<rparr> =
   Inr \<lparr>ncols = 2, rows = [[Fin 1, Fin 2], [Fin 0, Fin 1]]\<rparr>"
  by (simp add: shape_def nrows_def calculate_dnbr_def np_binop_def broadcast_dim_def stretch_def
      fl_round_small)

text \<open>
  C8. The difference is antisymmetric: on two rasters of one shape both differences
  are defined, and \<open>pre - post\<close> is the elementwise negation of \<open>post - pre\<close>: the
  two arrays are the same array, hence equal under the NaN-aware equality (NaN at the
  same pixels, equal elsewhere).
\<close>

theorem calculate_dnbr_antisymmetric:
  assumes "rect pre" and "rect post" and "shape pre = shape post"
  shows "calculate_dnbr dt pre post = Inr (nd_zip (fl_sub dt) pre post) \<and>
         calculate_dnbr dt post pre = Inr (nd_zip (fl_sub dt) post pre) \<and>
         nd_zip (fl_sub dt) pre post = nd_map fl_neg (nd_zip (fl_sub dt) post pre) \<and>
         array_equal_nan (nd_zip (fl_sub dt) pre post)
           (nd_map fl_neg (nd_zip (fl_sub dt) post pre))"
proof -
  have nc: "ncols pre = ncols post"
    using assms(3) by (simp add: shape_def)
  have e: "nd_zip (fl_sub dt) pre post = nd_map fl_neg (nd_zip (fl_sub dt) post pre)"
    using nc by (rule nd_zip_antisym)
  have "calculate_dnbr dt pre post = Inr (nd_zip (fl_sub dt) pre post)"
    using assms by (simp add: calculate_dnbr_def np_binop_same_shape)
  moreover have "calculate_dnbr dt post pre = Inr (nd_zip (fl_sub dt) post pre)"
    using assms by (simp add: calculate_dnbr_def np_binop_same_shape)
  moreover have "array_equal_nan (nd_zip (fl_sub dt) pre post)
      (nd_map fl_neg (nd_zip (fl_sub dt) post pre))"
    using array_equal_nan_refl [of "nd_zip (fl_sub dt) pre post"] e by simp
  ultimately show ?thesis
    using e by blast
qed

theorem calculate_dnbr_antisymmetric_witness:
  "rect \<lparr>ncols = 3, rows = [[Fin 1, NaN, PInf]]\<rparr> \<and>
   rect \<lparr>ncols = 3, rows = [[Fin 3, Fin 0, PInf]]\<rparr> \<and>
   shape \<lparr>ncols = 3, rows = [[Fin 1, NaN, PInf]]\<rparr> =
     shape \<lparr>ncols = 3, rows = [[Fin 3, Fin 0, PInf]]\<rparr> \<and>
   calculate_dnbr float64 \<lparr>ncols = 3, rows = [[Fin 1, NaN, PInf]]\<rparr>
     \<lparr>ncols = 3, rows = [[Fin 3, Fin 0, PInf]]\<rparr> =
     Inr \<lparr>ncols = 3, rows = [[Fin (- 2), NaN, NaN]]\<rparr> \<and>
   calculate_dnbr float64 \<lparr>ncols = 3, rows = [[Fin 3, Fin 0, PInf]]\<rparr>
     \<lparr>ncols = 3, rows = [[Fin 1, NaN, PInf]]\<rparr> =
     Inr \<lparr>ncols = 3, rows = [[Fin 2, NaN, NaN]]\<rparr>"
proof -
  let ?a = "\<lparr>ncols = 3, rows = [[Fin 1, NaN, PInf]]\<rparr> :: fl ndarray"
  let ?b = "\<lparr>ncols = 3, rows = [[Fin 3, Fin 0, PInf]]\<rparr> :: fl ndarray"
  have ra: "rect ?a" and rb: "rect ?b"
    by (simp_all add: rect_def)
  have sh: "shape ?a = shape ?b"
    by (simp add: shape_def nrows_def)
  have z: "nd_zip (fl_sub float64) ?a ?b = \<lparr>ncols = 3, rows = [[Fin (- 2), NaN, NaN]]\<rparr>"
    "nd_zip (fl_sub float64) ?b ?a = \<lparr>ncols = 3, rows = [[Fin 2, NaN, NaN]]\<rparr>"
    by (simp_all add: nd_zip_def fl_round_small)
  from calculate_dnbr_antisymmetric [OF ra rb sh, of float64] ra rb sh z show ?thesis
    by simp
qed

section \<open>Normalization\<close>

lemma nd_map_nd_map: "nd_map f (nd_map g a) = nd_map (\<lambda>v. f (g v)) a"
  by (simp add: nd_map_def comp_def)

lemma fl_clip_finite:
  "lo < hi \<Longrightarrow> fl_clip v (Fin lo) (Fin hi) =
     (case v of NaN \<Rightarrow> NaN | PInf \<Rightarrow> Fin hi | NInf \<Rightarrow> Fin lo | Fin x \<Rightarrow> Fin (min (max x lo) hi))"
  by (cases v) (auto simp: fl_clip_def fl_minimum_def fl_maximum_def min_def max_def)


lemma rescale_in_range:
  assumes "lo < hi" and "hi - lo < overflow_threshold dt" and "lo \<le> c" and "c \<le> hi"
  shows "fl_div dt (fl_sub dt (Fin c) (Fin lo)) (fl_sub dt (Fin hi) (Fin lo)) =
         Fin ((c - lo) / (hi - lo))"
proof -
  have d: "fl_round dt (hi - lo) = Fin (hi - lo)"
    using assms(1,2) by (simp add: fl_round_finite)
  have n: "fl_round dt (c - lo) = Fin (c - lo)"
    using assms by (simp add: fl_round_finite)
  have "0 \<le> (c - lo) / (hi - lo)" and "(c - lo) / (hi - lo) \<le> 1"
    using assms by (simp_all add: divide_le_eq_1)
  then have "\<bar>(c - lo) / (hi - lo)\<bar> \<le> 2"
    by linarith
  then have "fl_round dt ((c - lo) / (hi - lo)) = Fin ((c - lo) / (hi - lo))"
    by (rule fl_round_small)
  then show ?thesis
    using assms(1) by (simp add: d n)
qed


lemma normalize_px:
  assumes "lo < hi" and "hi - lo < overflow_threshold dt"
  shows "nan_to_num (Fin 0) (Fin 1) (Fin 0)
           (fl_div dt (fl_sub dt (fl_clip v (Fin lo) (Fin hi)) (Fin lo))
              (fl_sub dt (Fin hi) (Fin lo))) =
         (case v of
            NaN \<Rightarrow> Fin 0
          | PInf \<Rightarrow> Fin 1
          | NInf \<Rightarrow> Fin 0
          | Fin x \<Rightarrow> Fin ((min (max x lo) hi - lo) / (hi - lo)))"
proof (cases v)
  case NaN
  then show ?thesis
    using assms(1) by (simp add: fl_clip_finite)
next
  case PInf
  then show ?thesis
    using assms rescale_in_range [of lo hi dt hi] by (simp add: fl_clip_finite)
next
  case NInf
  then show ?thesis
    using assms rescale_in_range [of lo hi dt lo] by (simp add: fl_clip_finite)
next
  case (Fin x)
  have "lo \<le> min (max x lo) hi" and "min (max x lo) hi \<le> hi"
    using assms(1) by (simp_all add: min_def max_def)
  with assms have "fl_div dt (fl_sub dt (Fin (min (max x lo) hi)) (Fin lo))
      (fl_sub dt (Fin hi) (Fin lo)) = Fin ((min (max x lo) hi - lo) / (hi - lo))"
    by (rule rescale_in_range)
  with Fin show ?thesis
    using assms(1) by (simp add: fl_clip_finite)
qed


lemma normalize_closed_form:
  assumes "lo < hi" and "hi - lo < overflow_threshold dt"
  shows "normalize_for_overlay dt a (Fin lo) (Fin hi) =
         nd_map (\<lambda>v. case v of
                        NaN \<Rightarrow> Fin 0
                      | PInf \<Rightarrow> Fin 1
                      | NInf \<Rightarrow> Fin 0
                      | Fin x \<Rightarrow> Fin ((min (max x lo) hi - lo) / (hi - lo))) a"
  using normalize_px [OF assms]
  by (simp add: normalize_for_overlay_def Let_def nd_map_nd_map)



section \<open>Claims about the overlay\<close>




text \<open>
  C2, as the code has it. \<^verbatim>\<open>colorize\<close> sees the normalized raster only, and its alpha
  is 180 exactly where the NORMALIZED value is strictly positive. In the overlay, where
  the normalization has the bounds -1 and 1, this is exactly where the original value
  is greater than -1 (a finite value above -1, or \<open>+Inf\<close>); the alpha is 0 where the
  original value is NaN, \<open>-Inf\<close>, or at most -1.
\<close>

theorem raster_overlay_alpha_normalized:
  assumes "rect a" and "i < nrows a" and "j < ncols a"
  shows "shape (raster_overlay_alpha dt a) = shape a \<and>
         px (raster_overlay_alpha dt a) i j =
           (if fl_gt (px (normalize_for_overlay dt a (Fin (- 1.0)) (Fin 1.0)) i j) (Fin 0)
            then 180 else 0) \<and>
         px (raster_overlay_alpha dt a) i j = (if fl_gt (px a i j) (Fin (- 1)) then 180 else 0)"
proof -
  let ?n = "normalize_for_overlay dt a (Fin (- 1)) (Fin 1)"
  let ?f = "\<lambda>v. case v of
                          NaN \<Rightarrow> Fin 0
                        | PInf \<Rightarrow> Fin 1
                        | NInf \<Rightarrow> Fin 0
                        | Fin x \<Rightarrow> Fin ((min (max x (- 1)) 1 - (- 1)) / (1 - (- 1)))"
  have jl: "j < length (rows a ! i)"
    using assms by (simp add: rect_row_length)
  have t: "1 - (- 1) < overflow_threshold dt"
    using overflow_threshold_gt [of dt] by simp
  have n: "?n = nd_map ?f a"
    using normalize_closed_form [of "- 1" 1 dt a] t by simp
  have sh: "shape ?n = shape a"
    by (simp add: n shape_nd_map)
  have pn: "px ?n i j = ?f (px a i j)"
    using assms(2) jl by (simp add: n px_nd_map)
  have jl': "j < length (rows ?n ! i)"
    using assms(2) jl by (simp add: n nd_map_def nrows_def)
  have i': "i < nrows ?n"
    using assms(2) sh by (simp add: shape_def)
  have pa: "px (raster_overlay_alpha dt a) i j = (if fl_gt (px ?n i j) (Fin 0) then 180 else 0)"
    using i' jl' by (simp add: raster_overlay_alpha_def colorize_alpha_def px_nd_map)
  have g: "fl_gt (?f v) (Fin 0) = fl_gt v (Fin (- 1))" for v
    by (cases v) (auto simp: fl_gt_def min_def max_def)
  have "shape (raster_overlay_alpha dt a) = shape a"
    by (simp add: raster_overlay_alpha_def colorize_alpha_def shape_nd_map sh)
  then show ?thesis
    using pa by (simp add: pn g)
qed

theorem raster_overlay_alpha_normalized_witness:
  "rect \<lparr>ncols = 3, rows = [[Fin 0.5, Fin (- 0.5), NaN]]\<rparr> \<and>
   (0::nat) < nrows \<lparr>ncols = 3, rows = [[Fin 0.5, Fin (- 0.5), NaN]]\<rparr> \<and>
   (1::nat) < ncols \<lparr>ncols = 3, rows = [[Fin 0.5, Fin (- 0.5), NaN]]\<rparr> \<and>
   px (raster_overlay_alpha float64 \<lparr>ncols = 3, rows = [[Fin 0.5, Fin (- 0.5), NaN]]\<rparr>) 0 1 = 180"
proof -
  let ?d = "\<lparr>ncols = 3, rows = [[Fin 0.5, Fin (- 0.5), NaN]]\<rparr> :: fl ndarray"
  have r: "rect ?d" by (simp add: rect_def)
  have i: "0 < nrows ?d" by (simp add: nrows_def)
  have j: "1 < ncols ?d" by simp
  have v: "px ?d 0 1 = Fin (- 0.5)" by (simp add: px_def)
  from raster_overlay_alpha_normalized [OF r i j, of float64]
  have "px (raster_overlay_alpha float64 ?d) 0 1 =
        (if fl_gt (px ?d 0 1) (Fin (- 1)) then 180 else 0)"
    by blast
  then have "px (raster_overlay_alpha float64 ?d) 0 1 = 180"
    unfolding v by (simp add: fl_gt_def)
  with r i j show ?thesis
    by blast
qed

text \<open>
  The claim as the specification words it (alpha 180 exactly where the ORIGINAL value
  is strictly positive) does not hold: the original value -0.5 is not positive, its
  normalized value is 0.25, and its alpha is 180.
\<close>

theorem overlay_alpha_counterexample:
  "\<not> fl_gt (Fin (- 0.5)) (Fin 0) \<and>
   px (normalize_for_overlay float64 (one_pixel (Fin (- 0.5))) (Fin (- 1.0)) (Fin 1.0)) 0 0 =
     Fin 0.25 \<and>
   px (raster_overlay_alpha float64 (one_pixel (Fin (- 0.5)))) 0 0 = 180"
  by (simp add: raster_overlay_alpha_def colorize_alpha_def normalize_for_overlay_def
      one_pixel_def nd_map_def fl_clip_def fl_minimum_def fl_maximum_def px_def fl_gt_def
      fl_round_small)

section \<open>The burn ratio\<close>

lemma map2_same_row: "map2 f xs xs = map (\<lambda>v. f v v) xs"
  by (induction xs) auto

lemma map2_same_rows: "map2 (map2 f) xss xss = map (map (\<lambda>v. f v v)) xss"
  by (induction xss) (auto simp: map2_same_row)

lemma nd_zip_same: "nd_zip f a a = nd_map (\<lambda>v. f v v) a"
  by (simp add: nd_zip_def nd_map_def map2_same_rows)

lemma set_where_not_finite:
  "set_where q (nd_map (\<lambda>v. \<not> isfinite v) q) NaN = nd_map (\<lambda>v. if \<not> isfinite v then NaN else v) q"
  by (simp add: set_where_nd_map nd_zip_same)

lemma safe_divide_same_shape:
  assumes "rect (s ! n)" and "rect (s ! d)" and "shape (s ! n) = shape (s ! d)"
  shows "safe_divide dt s n d =
         Inr (s @ [nd_map (\<lambda>v. if \<not> isfinite v then NaN else v)
                     (nd_zip (fl_div dt) (s ! n) (s ! d))],
              length s)"
  using assms
  by (simp add: safe_divide_def np_binop_same_shape alloc_def set_where_not_finite)

lemma calculate_nbr_same_shape:
  assumes "nir < length s" and "swir < length s"
    and "rect (s ! nir)" and "rect (s ! swir)" and "shape (s ! nir) = shape (s ! swir)"
  shows "calculate_nbr dt s nir swir =
         Inr (s @ [nd_zip (fl_sub dt) (s ! nir) (s ! swir), nd_zip (fl_add dt) (s ! nir) (s ! swir),
                   nd_map (\<lambda>v. if \<not> isfinite v then NaN else v)
                     (nd_zip (fl_div dt) (nd_zip (fl_sub dt) (s ! nir) (s ! swir))
                        (nd_zip (fl_add dt) (s ! nir) (s ! swir)))],
              length s + 2)"
proof -
  let ?n = "nd_zip (fl_sub dt) (s ! nir) (s ! swir)"
  let ?d = "nd_zip (fl_add dt) (s ! nir) (s ! swir)"
  let ?s2 = "s @ [?n, ?d]"
  have rn: "rect ?n" and rd: "rect ?d"
    using assms by (simp_all add: rect_nd_zip)
  have sh: "shape ?n = shape ?d"
    using assms by (simp add: shape_nd_zip)
  have n: "?s2 ! length s = ?n" and d: "?s2 ! Suc (length s) = ?d"
    by (simp_all add: nth_append)
  have "safe_divide dt ?s2 (length s) (Suc (length s)) =
        Inr (?s2 @ [nd_map (\<lambda>v. if \<not> isfinite v then NaN else v)
                      (nd_zip (fl_div dt) (?s2 ! length s) (?s2 ! Suc (length s)))], length ?s2)"
    by (rule safe_divide_same_shape) (simp_all only: n d rn rd sh)
  then have "safe_divide dt ?s2 (length s) (Suc (length s)) =
        Inr (s @ [?n, ?d, nd_map (\<lambda>v. if \<not> isfinite v then NaN else v) (nd_zip (fl_div dt) ?n ?d)],
             length s + 2)"
    by (simp only: n d) simp
  then show ?thesis
    using assms
    by (simp add: calculate_nbr_def np_binop_same_shape alloc_def nth_append)
qed

lemma px_nbr:
  assumes "rect a" and "rect b" and "shape a = shape b" and "i < nrows a" and "j < ncols a"
  shows "px (nd_map (\<lambda>v. if \<not> isfinite v then NaN else v)
               (nd_zip (fl_div dt) (nd_zip (fl_sub dt) a b) (nd_zip (fl_add dt) a b))) i j =
         nbr_px dt (px a i j) (px b i j)"
proof -
  let ?n = "nd_zip (fl_sub dt) a b" and ?d = "nd_zip (fl_add dt) a b"
  let ?q = "nd_zip (fl_div dt) ?n ?d"
  have rn: "rect ?n" and rd: "rect ?d"
    using assms by (simp_all add: rect_nd_zip)
  have sn: "shape ?n = shape a" and sd: "shape ?d = shape a"
    using assms by (simp_all add: shape_nd_zip)
  have rq: "rect ?q"
    using rn rd sn sd by (simp add: rect_nd_zip)
  have sq: "shape ?q = shape a"
    using sn sd by (simp add: shape_nd_zip)
  have i': "i < nrows ?n" and j': "j < ncols ?n"
    using assms(4,5) sn by (simp_all add: shape_def)
  have iq: "i < nrows ?q" and jq: "j < length (rows ?q ! i)"
    using assms(4,5) sq rq by (simp_all add: shape_def rect_row_length)
  have "px ?q i j = fl_div dt (px ?n i j) (px ?d i j)"
    using rn rd i' j' sn sd by (simp add: px_nd_zip)
  also have "\<dots> = fl_div dt (fl_sub dt (px a i j) (px b i j)) (fl_add dt (px a i j) (px b i j))"
    using assms by (simp add: px_nd_zip)
  finally show ?thesis
    using iq jq by (simp add: px_nd_map nbr_px_def Let_def)
qed

lemma nbr_px_not_finite: "\<not> isfinite a \<or> \<not> isfinite b \<Longrightarrow> nbr_px dt a b = NaN"
  by (cases a; cases b) (simp_all add: nbr_px_def)

lemma nbr_px_not_inf: "nbr_px dt a b \<noteq> PInf \<and> nbr_px dt a b \<noteq> NInf"
  by (cases "fl_div dt (fl_sub dt a b) (fl_add dt a b)") (simp_all add: nbr_px_def Let_def)

lemma fl_round_cases:
  "overflow_threshold dt \<le> \<bar>r\<bar> \<and> (fl_round dt r = PInf \<or> fl_round dt r = NInf) \<or>
   \<bar>r\<bar> < overflow_threshold dt \<and> fl_round dt r = Fin r"
  using overflow_threshold_gt [of dt] by (auto simp: fl_round_def abs_if)

lemma safe_inf_div:
  "n = PInf \<or> n = NInf \<Longrightarrow> d = PInf \<or> d = NInf \<or> d = Fin z \<Longrightarrow> \<not> isfinite (fl_div dt n d)"
  by (auto split: if_splits)

lemma nbr_px_finite:
  "nbr_px dt (Fin x) (Fin y) = NaN \<longleftrightarrow>
     x + y = 0 \<or> overflow_threshold dt \<le> \<bar>x - y\<bar> \<or>
     (\<bar>x + y\<bar> < overflow_threshold dt \<and> overflow_threshold dt \<le> \<bar>(x - y) / (x + y)\<bar>)"
proof -
  let ?T = "overflow_threshold dt"
  have T: "2 < ?T"
    by (rule overflow_threshold_gt)
  have q: "nbr_px dt (Fin x) (Fin y) = NaN \<longleftrightarrow>
           \<not> isfinite (fl_div dt (fl_round dt (x - y)) (fl_round dt (x + y))) \<or>
           fl_div dt (fl_round dt (x - y)) (fl_round dt (x + y)) = NaN"
    by (simp add: nbr_px_def Let_def)
  consider (ovn) "?T \<le> \<bar>x - y\<bar>"
    | (ovd) "\<bar>x - y\<bar> < ?T" "?T \<le> \<bar>x + y\<bar>"
    | (zero) "\<bar>x - y\<bar> < ?T" "x + y = 0"
    | (fin) "\<bar>x - y\<bar> < ?T" "\<bar>x + y\<bar> < ?T" "x + y \<noteq> 0"
    by fastforce
  then show ?thesis
  proof cases
    case ovn
    then have n: "fl_round dt (x - y) = PInf \<or> fl_round dt (x - y) = NInf"
      using fl_round_cases [of dt "x - y"] by auto
    have d: "fl_round dt (x + y) = PInf \<or> fl_round dt (x + y) = NInf \<or>
             fl_round dt (x + y) = Fin (x + y)"
      using fl_round_cases [of dt "x + y"] by auto
    have "\<not> isfinite (fl_div dt (fl_round dt (x - y)) (fl_round dt (x + y)))"
      using n d by (rule safe_inf_div)
    with ovn show ?thesis
      by (simp add: q)
  next
    case ovd
    then have n: "fl_round dt (x - y) = Fin (x - y)"
      by (simp add: fl_round_finite)
    have d: "fl_round dt (x + y) = PInf \<or> fl_round dt (x + y) = NInf"
      using ovd(2) fl_round_cases [of dt "x + y"] by auto
    have "fl_div dt (fl_round dt (x - y)) (fl_round dt (x + y)) = Fin 0"
      using d by (auto simp: n)
    moreover have "x + y \<noteq> 0"
      using ovd(2) T by auto
    ultimately show ?thesis
      using ovd by (simp add: q)
  next
    case zero
    then have n: "fl_round dt (x - y) = Fin (x - y)"
      by (simp add: fl_round_finite)
    have d: "fl_round dt 0 = Fin 0"
      using T by (simp add: fl_round_def)
    show ?thesis
      using zero(2) by (simp add: q n d)
  next
    case fin
    then have n: "fl_round dt (x - y) = Fin (x - y)" and d: "fl_round dt (x + y) = Fin (x + y)"
      by (simp_all add: fl_round_finite)
    have "fl_div dt (Fin (x - y)) (Fin (x + y)) = fl_round dt ((x - y) / (x + y))"
      using fin(3) by simp
    moreover have "fl_round dt ((x - y) / (x + y)) \<noteq> NaN"
      by (rule fl_round_not_nan)
    ultimately have "nbr_px dt (Fin x) (Fin y) = NaN \<longleftrightarrow> ?T \<le> \<bar>(x - y) / (x + y)\<bar>"
      unfolding q n d by (simp add: isfinite_fl_round not_less)
    with fin show ?thesis
      by simp
  qed
qed

lemma ratio_range:
  fixes x y :: real
  assumes "0 \<le> x" and "0 \<le> y" and "x + y \<noteq> 0"
  shows "- 1 \<le> (x - y) / (x + y) \<and> (x - y) / (x + y) \<le> 1"
proof -
  have "0 < x + y"
    using assms by linarith
  then show ?thesis
    using assms by (simp add: divide_le_eq le_divide_eq)
qed

lemma nbr_px_reflectance:
  assumes "0 \<le> x" and "x \<le> 1" and "0 \<le> y" and "y \<le> 1" and "x + y \<noteq> 0"
  shows "nbr_px dt (Fin x) (Fin y) = Fin ((x - y) / (x + y))"
proof -
  have "\<bar>x - y\<bar> \<le> 2" and "\<bar>x + y\<bar> \<le> 2"
    using assms by linarith+
  then have n: "fl_round dt (x - y) = Fin (x - y)" and d: "fl_round dt (x + y) = Fin (x + y)"
    by (simp_all add: fl_round_small)
  have "\<bar>(x - y) / (x + y)\<bar> \<le> 2"
    using ratio_range [OF assms(1,3,5)] by linarith
  then have "fl_round dt ((x - y) / (x + y)) = Fin ((x - y) / (x + y))"
    by (rule fl_round_small)
  then show ?thesis
    using assms(5) by (simp add: nbr_px_def Let_def n d)
qed

section \<open>Claims about the burn ratio\<close>

text \<open>
  C4, as the code has it. For two rasters of one shape, \<^verbatim>\<open>calculate_nbr\<close> never
  raises; its result is a newly allocated array; the inputs, like every array that
  existed before the call, are unchanged (also when both arguments are the same array).
  The result has the shape of the inputs and never holds an infinity. It is NaN at
  exactly the pixels where either input is not finite (NaN, \<open>+Inf\<close> or \<open>-Inf\<close>), or
  \<open>a + b == 0\<close>, or the difference \<open>a - b\<close> overflows, or the quotient of a finite
  difference and a finite sum overflows. Where both inputs are non-negative numbers at
  most 1 with a non-zero sum, the result is \<open>(a - b) / (a + b)\<close> and lies in
  \<open>[-1, 1]\<close>.
\<close>

theorem calculate_nbr_contract:
  assumes "nir < length s" and "swir < length s"
    and "rect (s ! nir)" and "rect (s ! swir)" and "shape (s ! nir) = shape (s ! swir)"
  shows "\<exists>s' r. calculate_nbr dt s nir swir = Inr (s', r) \<and>
           length s \<le> r \<and> r < length s' \<and>
           (\<forall>p<length s. s' ! p = s ! p) \<and>
           shape (s' ! r) = shape (s ! nir) \<and>
           (\<forall>i<nrows (s ! nir). \<forall>j<ncols (s ! nir).
              (px (s' ! r) i j = NaN \<longleftrightarrow>
                 \<not> isfinite (px (s ! nir) i j) \<or> \<not> isfinite (px (s ! swir) i j) \<or>
                 (\<exists>x y. px (s ! nir) i j = Fin x \<and> px (s ! swir) i j = Fin y \<and>
                    (x + y = 0 \<or> overflow_threshold dt \<le> \<bar>x - y\<bar> \<or>
                     (\<bar>x + y\<bar> < overflow_threshold dt \<and>
                      overflow_threshold dt \<le> \<bar>(x - y) / (x + y)\<bar>)))) \<and>
              px (s' ! r) i j \<noteq> PInf \<and> px (s' ! r) i j \<noteq> NInf \<and>
              (\<forall>x y. px (s ! nir) i j = Fin x \<and> px (s ! swir) i j = Fin y \<and>
                     0 \<le> x \<and> x \<le> 1 \<and> 0 \<le> y \<and> y \<le> 1 \<and> x + y \<noteq> 0 \<longrightarrow>
                     px (s' ! r) i j = Fin ((x - y) / (x + y)) \<and>
                     - 1 \<le> (x - y) / (x + y) \<and> (x - y) / (x + y) \<le> 1))"
proof -
  let ?a = "s ! nir" and ?b = "s ! swir"
  let ?n = "nd_zip (fl_sub dt) ?a ?b" and ?d = "nd_zip (fl_add dt) ?a ?b"
  let ?res = "nd_map (\<lambda>v. if \<not> isfinite v then NaN else v) (nd_zip (fl_div dt) ?n ?d)"
  define s' where "s' = s @ [?n, ?d, ?res]"
  define r where "r = length s + 2"
  have c: "calculate_nbr dt s nir swir = Inr (s', r)"
    unfolding s'_def r_def using assms by (rule calculate_nbr_same_shape)
  have res: "s' ! r = ?res"
    by (simp add: s'_def r_def nth_append)
  have old: "\<forall>p<length s. s' ! p = s ! p"
    by (simp add: s'_def nth_append)
  have sh: "shape (s' ! r) = shape ?a"
    unfolding res using assms(5) by (simp add: shape_nd_map shape_nd_zip)
  have p: "px (s' ! r) i j = nbr_px dt (px ?a i j) (px ?b i j)"
    if "i < nrows ?a" "j < ncols ?a" for i j
    unfolding res using assms(3-5) that by (rule px_nbr)
  have nan_iff: "nbr_px dt u v = NaN \<longleftrightarrow>
      \<not> isfinite u \<or> \<not> isfinite v \<or>
      (\<exists>x y. u = Fin x \<and> v = Fin y \<and>
         (x + y = 0 \<or> overflow_threshold dt \<le> \<bar>x - y\<bar> \<or>
          (\<bar>x + y\<bar> < overflow_threshold dt \<and>
           overflow_threshold dt \<le> \<bar>(x - y) / (x + y)\<bar>)))" for u v
  proof (cases "isfinite u \<and> isfinite v")
    case True
    then obtain x y where "u = Fin x" "v = Fin y"
      by (cases u; cases v) auto
    then show ?thesis
      using nbr_px_finite [of dt x y] by simp
  next
    case False
    then show ?thesis
      using nbr_px_not_finite [of u v dt] by auto
  qed
  have px_facts: "(px (s' ! r) i j = NaN \<longleftrightarrow>
                 \<not> isfinite (px ?a i j) \<or> \<not> isfinite (px ?b i j) \<or>
                 (\<exists>x y. px ?a i j = Fin x \<and> px ?b i j = Fin y \<and>
                    (x + y = 0 \<or> overflow_threshold dt \<le> \<bar>x - y\<bar> \<or>
                     (\<bar>x + y\<bar> < overflow_threshold dt \<and>
                      overflow_threshold dt \<le> \<bar>(x - y) / (x + y)\<bar>)))) \<and>
              px (s' ! r) i j \<noteq> PInf \<and> px (s' ! r) i j \<noteq> NInf \<and>
              (\<forall>x y. px ?a i j = Fin x \<and> px ?b i j = Fin y \<and>
                     0 \<le> x \<and> x \<le> 1 \<and> 0 \<le> y \<and> y \<le> 1 \<and> x + y \<noteq> 0 \<longrightarrow>
                     px (s' ! r) i j = Fin ((x - y) / (x + y)) \<and>
                     - 1 \<le> (x - y) / (x + y) \<and> (x - y) / (x + y) \<le> 1)"
    if ij: "i < nrows ?a" "j < ncols ?a" for i j
  proof -
    have "px (s' ! r) i j = NaN \<longleftrightarrow>
                 \<not> isfinite (px ?a i j) \<or> \<not> isfinite (px ?b i j) \<or>
                 (\<exists>x y. px ?a i j = Fin x \<and> px ?b i j = Fin y \<and>
                    (x + y = 0 \<or> overflow_threshold dt \<le> \<bar>x - y\<bar> \<or>
                     (\<bar>x + y\<bar> < overflow_threshold dt \<and>
                      overflow_threshold dt \<le> \<bar>(x - y) / (x + y)\<bar>)))"
      unfolding p [OF ij] by (rule nan_iff)
    moreover have "px (s' ! r) i j \<noteq> PInf \<and> px (s' ! r) i j \<noteq> NInf"
      unfolding p [OF ij] by (rule nbr_px_not_inf)
    moreover have "px (s' ! r) i j = Fin ((x - y) / (x + y)) \<and>
                   - 1 \<le> (x - y) / (x + y) \<and> (x - y) / (x + y) \<le> 1"
      if "px ?a i j = Fin x" "px ?b i j = Fin y" "0 \<le> x" "x \<le> 1" "0 \<le> y" "y \<le> 1"
        "x + y \<noteq> 0" for x y
      using that ratio_range [of x y] by (simp add: p [OF ij] nbr_px_reflectance)
    ultimately show ?thesis
      by blast
  qed
  have "length s \<le> r" and "r < length s'"
    by (simp_all add: s'_def r_def)
  with c old sh px_facts show ?thesis
    by blast
qed

theorem calculate_nbr_contract_witness:
  "(0::nat) < length [one_pixel (Fin 0.8), one_pixel (Fin 0.2)] \<and>
   (1::nat) < length [one_pixel (Fin 0.8), one_pixel (Fin 0.2)] \<and>
   rect ([one_pixel (Fin 0.8), one_pixel (Fin 0.2)] ! 0) \<and>
   rect ([one_pixel (Fin 0.8), one_pixel (Fin 0.2)] ! 1) \<and>
   shape ([one_pixel (Fin 0.8), one_pixel (Fin 0.2)] ! 0) =
     shape ([one_pixel (Fin 0.8), one_pixel (Fin 0.2)] ! 1) \<and>
   (\<exists>s' r. calculate_nbr float64 [one_pixel (Fin 0.8), one_pixel (Fin 0.2)] 0 1 = Inr (s', r) \<and>
      s' ! 0 = one_pixel (Fin 0.8) \<and> s' ! 1 = one_pixel (Fin 0.2) \<and>
      px (s' ! r) 0 0 = Fin 0.6) \<and>
   (\<exists>s' r. calculate_nbr float64
              [one_pixel (Fin (15 * 10 ^ 307)), one_pixel (Fin (- (10 ^ 308)))] 0 1 = Inr (s', r) \<and>
      px (s' ! r) 0 0 = NaN)"
proof -
  let ?s = "[one_pixel (Fin 0.8), one_pixel (Fin 0.2)]"
  have h0: "0 < length ?s" and h1: "1 < length ?s"
    by simp_all
  have r0: "rect (?s ! 0)" and r1: "rect (?s ! 1)"
    by (simp_all add: rect_one_pixel)
  have sh: "shape (?s ! 0) = shape (?s ! 1)"
    by (simp add: shape_def shape_one_pixel)
  have a: "px (?s ! 0) 0 0 = Fin 0.8" and b: "px (?s ! 1) 0 0 = Fin 0.2"
    by (simp_all add: shape_one_pixel)
  have i: "0 < nrows (?s ! 0)" and j: "0 < ncols (?s ! 0)"
    by (simp_all add: shape_one_pixel)
  from calculate_nbr_contract [OF h0 h1 r0 r1 sh, of float64]
  obtain s' r where c: "calculate_nbr float64 ?s 0 1 = Inr (s', r)"
    and old: "\<forall>p<length ?s. s' ! p = ?s ! p"
    and v: "\<forall>i<nrows (?s ! 0). \<forall>j<ncols (?s ! 0).
              (\<forall>x y. px (?s ! 0) i j = Fin x \<and> px (?s ! 1) i j = Fin y \<and>
                     0 \<le> x \<and> x \<le> 1 \<and> 0 \<le> y \<and> y \<le> 1 \<and> x + y \<noteq> 0 \<longrightarrow>
                     px (s' ! r) i j = Fin ((x - y) / (x + y)))"
    by blast
  from v i j a b have "px (s' ! r) 0 0 = Fin ((0.8 - 0.2) / (0.8 + 0.2))"
    by force
  then have "px (s' ! r) 0 0 = Fin 0.6"
    by simp
  moreover from old have "s' ! 0 = one_pixel (Fin 0.8)" and "s' ! 1 = one_pixel (Fin 0.2)"
    by simp_all
  ultimately have first: "\<exists>s' r. calculate_nbr float64 ?s 0 1 = Inr (s', r) \<and>
      s' ! 0 = one_pixel (Fin 0.8) \<and> s' ! 1 = one_pixel (Fin 0.2) \<and> px (s' ! r) 0 0 = Fin 0.6"
    using c by blast
  let ?t = "[one_pixel (Fin (15 * 10 ^ 307)), one_pixel (Fin (- (10 ^ 308)))]"
  have g0: "0 < length ?t" and g1: "1 < length ?t"
    by simp_all
  have q0: "rect (?t ! 0)" and q1: "rect (?t ! 1)"
    by (simp_all add: rect_one_pixel)
  have th: "shape (?t ! 0) = shape (?t ! 1)"
    by (simp add: shape_def shape_one_pixel)
  have a': "px (?t ! 0) 0 0 = Fin (15 * 10 ^ 307)" and b': "px (?t ! 1) 0 0 = Fin (- (10 ^ 308))"
    by (simp_all add: shape_one_pixel)
  have i': "0 < nrows (?t ! 0)" and j': "0 < ncols (?t ! 0)"
    by (simp_all add: shape_one_pixel)
  have ov: "overflow_threshold float64 \<le> \<bar>15 * 10 ^ 307 - (- (10 ^ 308))\<bar>"
    by simp
  from calculate_nbr_contract [OF g0 g1 q0 q1 th, of float64]
  obtain t' k where c': "calculate_nbr float64 ?t 0 1 = Inr (t', k)"
    and w: "\<forall>i<nrows (?t ! 0). \<forall>j<ncols (?t ! 0).
              (px (t' ! k) i j = NaN \<longleftrightarrow>
                 \<not> isfinite (px (?t ! 0) i j) \<or> \<not> isfinite (px (?t ! 1) i j) \<or>
                 (\<exists>x y. px (?t ! 0) i j = Fin x \<and> px (?t ! 1) i j = Fin y \<and>
                    (x + y = 0 \<or> overflow_threshold float64 \<le> \<bar>x - y\<bar> \<or>
                     (\<bar>x + y\<bar> < overflow_threshold float64 \<and>
                      overflow_threshold float64 \<le> \<bar>(x - y) / (x + y)\<bar>))))"
    by blast
  from w i' j' have "px (t' ! k) 0 0 = NaN \<longleftrightarrow>
                 \<not> isfinite (px (?t ! 0) 0 0) \<or> \<not> isfinite (px (?t ! 1) 0 0) \<or>
                 (\<exists>x y. px (?t ! 0) 0 0 = Fin x \<and> px (?t ! 1) 0 0 = Fin y \<and>
                    (x + y = 0 \<or> overflow_threshold float64 \<le> \<bar>x - y\<bar> \<or>
                     (\<bar>x + y\<bar> < overflow_threshold float64 \<and>
                      overflow_threshold float64 \<le> \<bar>(x - y) / (x + y)\<bar>)))"
    by blast
  moreover have "\<exists>x y. px (?t ! 0) 0 0 = Fin x \<and> px (?t ! 1) 0 0 = Fin y \<and>
                    (x + y = 0 \<or> overflow_threshold float64 \<le> \<bar>x - y\<bar> \<or>
                     (\<bar>x + y\<bar> < overflow_threshold float64 \<and>
                      overflow_threshold float64 \<le> \<bar>(x - y) / (x + y)\<bar>))"
    using a' b' ov by blast
  ultimately have "px (t' ! k) 0 0 = NaN"
    by blast
  with c' have second: "\<exists>s' r. calculate_nbr float64 ?t 0 1 = Inr (s', r) \<and> px (s' ! r) 0 0 = NaN"
    by blast
  from h0 h1 r0 r1 sh first second show ?thesis
    by blast
qed

text \<open>
  The claim as the specification words it (NaN exactly where \<open>a + b == 0\<close> or an input
  is NaN) does not hold on an infinite input: for \<open>a = +Inf\<close> and \<open>b = 1\<close> neither
  input is NaN, the sum is \<open>+Inf\<close> and not 0, and the result is NaN (\<open>Inf / Inf\<close>).
\<close>

theorem calculate_nbr_inf_counterexample:
  "\<not> isnan PInf \<and> \<not> isnan (Fin 1) \<and> \<not> fl_eq (fl_add float64 PInf (Fin 1)) (Fin 0) \<and>
   calculate_nbr float64 [one_pixel PInf, one_pixel (Fin 1)] 0 1 =
     Inr ([one_pixel PInf, one_pixel (Fin 1), one_pixel PInf, one_pixel PInf, one_pixel NaN], 4)"
  by (simp add: calculate_nbr_def safe_divide_def alloc_def np_binop_def broadcast_dim_def
      stretch_def one_pixel_def nrows_def set_where_def nd_zip_def nd_map_def fl_eq_def)

end
